theory Spec2Isabelle
  imports Main
begin

section \<open>Python strings\<close>


datatype py_error = TypeError | AttributeError | OverflowError

text \<open>
  The program is the Python module \<^verbatim>\<open>arbitr.py\<close>: the class \<^verbatim>\<open>GoogleScraper\<close> with its
  keyword tables, its three classification methods and its date parsers. A \<^verbatim>\<open>str\<close> is
  modelled as a \<^typ>\<open>string\<close> whose characters are the code points below 256; the
  character classes (\<^verbatim>\<open>\w\<close>, \<^verbatim>\<open>\d\<close>, \<^verbatim>\<open>\s\<close>, \<^verbatim>\<open>str.isspace\<close>) and \<^verbatim>\<open>str.lower\<close> are
  Python's on these code points. A parameter annotated \<^verbatim>\<open>str\<close> that may receive \<^verbatim>\<open>None\<close> is
  a \<^typ>\<open>string option\<close>, and a raised exception is a value of \<^typ>\<open>py_error\<close> on the
  left of a sum.
\<close>

text \<open>\<^verbatim>\<open>ord(c)\<close>\<close>

definition py_ord :: "char \<Rightarrow> nat" where
  "py_ord c = of_char c"

text \<open>The letters of ASCII.\<close>

definition is_upper :: "char \<Rightarrow> bool" where
  "is_upper c = (65 \<le> py_ord c \<and> py_ord c \<le> 90)"

definition is_lower :: "char \<Rightarrow> bool" where
  "is_lower c = (97 \<le> py_ord c \<and> py_ord c \<le> 122)"

text \<open>
  The code points from 128 to 255 that \<^verbatim>\<open>str.isalnum\<close> accepts (letters, superscript digits
  and fractions of Latin-1), and those that \<^verbatim>\<open>str.lower\<close> changes (the capital letters of
  Latin-1, which lie 32 below their small letters).
\<close>

definition is_latin1_alnum :: "char \<Rightarrow> bool" where
  "is_latin1_alnum c =
     (py_ord c = 170 \<or> (178 \<le> py_ord c \<and> py_ord c \<le> 179) \<or> py_ord c = 181 \<or>
      (185 \<le> py_ord c \<and> py_ord c \<le> 186) \<or> (188 \<le> py_ord c \<and> py_ord c \<le> 190) \<or>
      (192 \<le> py_ord c \<and> py_ord c \<le> 214) \<or> (216 \<le> py_ord c \<and> py_ord c \<le> 246) \<or>
      (248 \<le> py_ord c \<and> py_ord c \<le> 255))"

definition is_latin1_upper :: "char \<Rightarrow> bool" where
  "is_latin1_upper c =
     ((192 \<le> py_ord c \<and> py_ord c \<le> 214) \<or> (216 \<le> py_ord c \<and> py_ord c \<le> 222))"

text \<open>\<^verbatim>\<open>\d\<close>\<close>

definition is_digit :: "char \<Rightarrow> bool" where
  "is_digit c = (48 \<le> py_ord c \<and> py_ord c \<le> 57)"

text \<open>\<^verbatim>\<open>\w\<close>: an alphanumeric character or the underscore.\<close>

definition is_word :: "char \<Rightarrow> bool" where
  "is_word c = (is_lower c \<or> is_upper c \<or> is_digit c \<or> c = CHR ''_'' \<or> is_latin1_alnum c)"

text \<open>
  \<^verbatim>\<open>\s\<close> and \<^verbatim>\<open>str.isspace\<close>: the controls from tab to carriage return, the four separators
  \<^verbatim>\<open>\x1c\<close> to \<^verbatim>\<open>\x1f\<close>, the space, the next-line control \<^verbatim>\<open>\x85\<close> and the no-break space
  \<^verbatim>\<open>\xa0\<close>.
\<close>

definition is_space :: "char \<Rightarrow> bool" where
  "is_space c = ((9 \<le> py_ord c \<and> py_ord c \<le> 13) \<or> (28 \<le> py_ord c \<and> py_ord c \<le> 32) \<or>
                 py_ord c = 133 \<or> py_ord c = 160)"

definition ascii_uppercase :: string where
  "ascii_uppercase = ''ABCDEFGHIJKLMNOPQRSTUVWXYZ''"

definition ascii_lowercase :: string where
  "ascii_lowercase = ''abcdefghijklmnopqrstuvwxyz''"

definition lower_char :: "char \<Rightarrow> char" where
  "lower_char c = (case map_of (zip ascii_uppercase ascii_lowercase) c of
                     Some l \<Rightarrow> l
                   | None \<Rightarrow> if is_latin1_upper c then char_of (py_ord c + 32) else c)"

definition upper_char :: "char \<Rightarrow> char" where
  "upper_char c = (case map_of (zip ascii_lowercase ascii_uppercase) c of
                     Some u \<Rightarrow> u | None \<Rightarrow> c)"

text \<open>\<^verbatim>\<open>s.lower()\<close>\<close>

definition lower :: "string \<Rightarrow> string" where
  "lower s = map lower_char s"

text \<open>
  \<^verbatim>\<open>s.title()\<close> on a string of ASCII (the program calls it on the tokens of the registry
  only): a letter that follows a letter is lowercased, any other letter is uppercased, the
  rest is kept. The flag says whether the previous character is a letter.
\<close>

fun title_from :: "bool \<Rightarrow> string \<Rightarrow> string" where
  "title_from prev [] = []"
| "title_from prev (c # cs) =
     (if is_upper c \<or> is_lower c
      then (if prev then lower_char c else upper_char c) # title_from True cs
      else c # title_from False cs)"

definition title :: "string \<Rightarrow> string" where
  "title s = title_from False s"

text \<open>\<^verbatim>\<open>s.startswith(p)\<close>\<close>

fun startswith :: "string \<Rightarrow> string \<Rightarrow> bool" where
  "startswith s [] = True"
| "startswith [] (p # ps) = False"
| "startswith (c # cs) (p # ps) = (c = p \<and> startswith cs ps)"

text \<open>\<^verbatim>\<open>sub in s\<close> on two strings: \<^verbatim>\<open>sub\<close> occurs in \<^verbatim>\<open>s\<close> as a substring.\<close>

fun contains :: "string \<Rightarrow> string \<Rightarrow> bool" where
  "contains sub [] = (sub = [])"
| "contains sub (c # cs) = (startswith (c # cs) sub \<or> contains sub cs)"

text \<open>
  \<^verbatim>\<open>sub in text\<close> where \<^verbatim>\<open>text\<close> may be \<^verbatim>\<open>None\<close>: the membership test on \<^verbatim>\<open>None\<close>
  raises \<^verbatim>\<open>TypeError\<close>.
\<close>

fun py_in :: "string \<Rightarrow> string option \<Rightarrow> py_error + bool" where
  "py_in sub None = Inl TypeError"
| "py_in sub (Some s) = Inr (contains sub s)"

text \<open>\<^verbatim>\<open>text.lower()\<close> where \<^verbatim>\<open>text\<close> may be \<^verbatim>\<open>None\<close>: the attribute lookup raises.\<close>

fun py_lower :: "string option \<Rightarrow> py_error + string" where
  "py_lower None = Inl AttributeError"
| "py_lower (Some s) = Inr (lower s)"

section \<open>The keyword tables of \<^verbatim>\<open>GoogleScraper\<close>\<close>

text \<open>\<^verbatim>\<open>INDUSTRY_KEYWORDS\<close>, a dict literal: its items in insertion order.\<close>

definition INDUSTRY_KEYWORDS :: "(string \<times> string list) list" where
  "INDUSTRY_KEYWORDS =
   [(''energy'',
      [''power grid'', ''electricity transmission'', ''high voltage substation'', ''transformer'',
       ''switchgear'', ''grid operator'', ''power plant'', ''gas-fired plant'', ''substation'',
       ''nuclear plant'', ''hydropower dam'', ''wind farm'', ''solar farm'', ''transformer'',
       ''gas pipeline'', ''compressor station'', ''LNG terminal'', ''oil refinery'',
       ''fuel depot'', ''storage tank'', ''pumping station'', ''heating'',
       ''blackout'', ''grid failure'', ''SCADA'', ''ICS'', ''power outage'']),
    (''transportation'',
      [''railway'', ''rail line'', ''freight train'',
       ''rail yard'', ''marshalling yard'',
       ''rail signalling'', ''signal box'',
       ''switch points'', ''interlocking'',
       ''derailment'', ''derailed'', ''track'',
       ''bridge'', ''tunnel'', ''pier'', ''terminal'',
       ''port'', ''container terminal'',
       ''logistics hub'', ''distribution hub'',
       ''fuel pipeline'', ''airport'',
       ''runway'', ''air traffic control'',
       ''depot'', ''track section'']),
    (''telecommunications'',
      [''telecom exchange'', ''telephone exchange'',
       ''mobile network'', ''cell tower'',
       ''base station'', ''core network'',
       ''network operations centre'', ''data centre'',
       ''fiber-optic cable'', ''fibre-optic cable'',
       ''undersea cable'', ''subsea cable'', ''submarine cable'',
       ''cable landing station'', ''backbone network'',
       ''microwave link'', ''satellite link'',
       ''routing outage'', ''BGP hijack'',
       ''cable cut'', ''network disruption'', ''anchor'']),
    (''finance'',
      [''bank'', ''central bank'', ''payment system'',
       ''SWIFT'', ''SEPA'', ''clearing house'',
       ''ATM network'', ''cash-in-transit'',
       ''bank branch'', ''vault'',
       ''financial regulator'', ''sanctions enforcement'',
       ''sanctions evasion'', ''money laundering'',
       ''financial cyberattack'', ''extortion'', ''ransomware'',
       ''ransom payment'', ''crypto exchange'', ''illicit finance'']),
    (''healthcare'',
      [''hospital'', ''medical centre'', ''emergency department'',
       ''ambulance service'', ''medical supply depot'',
       ''pharmaceutical plant'', ''vaccine facility'',
       ''laboratory'', ''pathology lab'', ''biomedical facility'',
       ''oxygen supply'', ''medical gas'', ''power outage hospital'',
       ''backup generator failure'', ''hospital ransomware'',
       ''health data breach'', ''medical logistics'',
       ''cold chain disruption'', ''water contamination'',
       ''fire evacuation'', ''security incident'']),
    (''defense'',
      [''military base'', ''airbase'', ''naval base'', ''barracks'',
       ''munitions depot'', ''ammo depot'', ''weapons storage'',
       ''fuel depot'', ''jet fuel'', ''military logistics'',
       ''weapons shipment'', ''military convoy'', ''rail transport military'',
       ''radar site'', ''air defence'', ''missile system'',
       ''drone'', ''UAV'', ''military aircraft'', ''arms factory'',
       ''restricted area'', ''secure facility'', ''perimeter breach'',
       ''explosive device'', ''military attack'']),
    (''cybersecurity'',
      [''cyber sabotage'', ''malware'', ''ransomware'', ''DDoS'',
       ''network intrusion'', ''unauthorized access'',
       ''OT compromise'', ''ICS compromise'', ''SCADA breach'', ''industrial control system'',
       ''PLC manipulation'', ''remote access trojan'', ''command and control'',
       ''APT'', ''state-sponsored'', ''cyber espionage'', ''cyber disruption'',
       ''satellite communications attack'', ''router compromise'',
       ''telecom network intrusion'', ''cyberattack'', ''cyber attack'',
       ''system outage'']),
    (''manufacturing'',
      [''factory'', ''production facility'', ''industrial site'',
       ''petrochemical'', ''plant'', ''production halt'']),
    (''government'',
      [''government building'', ''ministry'', ''office'', ''recruitment office'',
       ''recruitment centre'',
       ''state agency'', ''regulatory authority'', ''municipal building'',
       ''city hall'', ''prefecture'', ''embassy'', ''consulate'',
       ''border police'', ''border guard'', ''customs service'',
       ''civil protection'', ''emergency management'', ''critical infrastructure authority'',
       ''classified facility'', ''secure compound''])]"

text \<open>
  \<^verbatim>\<open>COUNTRY_KEYWORDS\<close>, a set literal: its elements as written. The order in which Python
  iterates over the set is not fixed by the program.
\<close>

definition COUNTRY_KEYWORDS :: "string list" where
  "COUNTRY_KEYWORDS =
   [''ukraine'', ''poland'', ''germany'', ''france'', ''uk'', ''united kingdom'',
    ''great britain'', ''england'', ''britain'',
    ''estonia'', ''latvia'', ''lithuania'', ''czech'', ''czechia'', ''czech republic'',
    ''slovakia'', ''romania'', ''bulgaria'',
    ''finland'', ''sweden'', ''norway'', ''denmark'', ''netherlands'', ''belgium'', ''spain'',
    ''luxembourg'', ''hungary'',
    ''italy'', ''greece'', ''portugal'', ''moldova'', ''austria'', ''switzerland'']"

text \<open>\<^verbatim>\<open>SECURITY_SERVICES['direct']\<close> and \<^verbatim>\<open>SECURITY_SERVICES['proxy']\<close>.\<close>

definition SECURITY_SERVICES_direct :: "string list" where
  "SECURITY_SERVICES_direct = [''gru'', ''svr'', ''fsb'', ''russian intelligence'']"

definition SECURITY_SERVICES_proxy :: "string list" where
  "SECURITY_SERVICES_proxy =
   [''hacker group'', ''cybercriminal'', ''activist'', ''drug'', ''criminal group'', ''criminals'',
    ''separatist'', ''militia'', ''drug dealer'', ''drug lord'', ''gang'', ''gangs'', ''recruit'',
    ''traitor'',
    ''criminal'', ''felon'', ''extremist'', ''extremists'', ''extremist group'',
    ''extremist groups'',
    ''ultranationalist'', ''ultranationalists'', ''ultranationalist group'',
    ''ultranationalist groups'']"

section \<open>\<^verbatim>\<open>_determine_attack_method\<close>\<close>

text \<open>\<^verbatim>\<open>sum(1 for keyword in keywords if keyword in text_lower)\<close>\<close>

definition keyword_score :: "string list \<Rightarrow> string \<Rightarrow> nat" where
  "keyword_score keywords text_lower = length (filter (\<lambda>keyword. contains keyword text_lower) keywords)"

definition direct_score :: "string \<Rightarrow> nat" where
  "direct_score text_lower = keyword_score SECURITY_SERVICES_direct text_lower"

definition proxy_score :: "string \<Rightarrow> nat" where
  "proxy_score text_lower = keyword_score SECURITY_SERVICES_proxy text_lower"

definition determine_attack_method :: "string option \<Rightarrow> py_error + string" where
  "determine_attack_method text =
     (case py_lower text of
        Inl e \<Rightarrow> Inl e
      | Inr text_lower \<Rightarrow>
          Inr (if direct_score text_lower > proxy_score text_lower then ''direct''
               else if proxy_score text_lower > direct_score text_lower then ''proxy''
               else ''unknown''))"

section \<open>\<^verbatim>\<open>_extract_industries\<close>\<close>

text \<open>
  The inner loop over one industry's keywords: \<^verbatim>\<open>True\<close> when the \<^verbatim>\<open>break\<close> is reached,
  \<^verbatim>\<open>False\<close> when the keywords are exhausted, an error when the membership test raises.
\<close>

fun any_keyword_in :: "string list \<Rightarrow> string option \<Rightarrow> py_error + bool" where
  "any_keyword_in [] text = Inr False"
| "any_keyword_in (keyword # keywords) text =
     (case py_in (lower keyword) text of
        Inl e \<Rightarrow> Inl e
      | Inr True \<Rightarrow> Inr True
      | Inr False \<Rightarrow> any_keyword_in keywords text)"

text \<open>The outer loop over the items of the table, appending to \<^verbatim>\<open>found_industries\<close>.\<close>

fun industries_loop ::
  "(string \<times> string list) list \<Rightarrow> string option \<Rightarrow> string list \<Rightarrow> py_error + string list" where
  "industries_loop [] text found_industries = Inr found_industries"
| "industries_loop ((industry, keywords) # items) text found_industries =
     (case any_keyword_in keywords text of
        Inl e \<Rightarrow> Inl e
      | Inr True \<Rightarrow> industries_loop items text (found_industries @ [industry])
      | Inr False \<Rightarrow> industries_loop items text found_industries)"

definition extract_industries :: "string option \<Rightarrow> py_error + string list" where
  "extract_industries text = industries_loop INDUSTRY_KEYWORDS text []"

section \<open>\<^verbatim>\<open>_normalize_country_name\<close>\<close>

text \<open>
  A dict literal evaluates its items from left to right: a key that is already present
  keeps its position and takes the new value, a new key is appended.
\<close>

fun dict_set :: "('k \<times> 'v) list \<Rightarrow> 'k \<Rightarrow> 'v \<Rightarrow> ('k \<times> 'v) list" where
  "dict_set [] k v = [(k, v)]"
| "dict_set ((k', v') # items) k v =
     (if k' = k then (k', v) # items else (k', v') # dict_set items k v)"

definition dict_literal :: "('k \<times> 'v) list \<Rightarrow> ('k \<times> 'v) list" where
  "dict_literal items = foldl (\<lambda>d (k, v). dict_set d k v) [] items"

text \<open>The local \<^verbatim>\<open>mapping\<close>, as written (the key \<^verbatim>\<open>'britain'\<close> occurs twice).\<close>

definition mapping_items :: "(string \<times> string) list" where
  "mapping_items =
   [(''uk'', ''United Kingdom''),
    (''britain'', ''United Kingdom''),
    (''gb'', ''United Kingdom''),
    (''great britain'', ''United Kingdom''),
    (''england'', ''United Kingdom''),
    (''britain'', ''United Kingdom''),
    (''ukraine'', ''Ukraine''),
    (''poland'', ''Poland''),
    (''germany'', ''Germany''),
    (''france'', ''France''),
    (''estonia'', ''Estonia''),
    (''latvia'', ''Latvia''),
    (''lithuania'', ''Lithuania''),
    (''czech'', ''Czech Republic''),
    (''czechia'', ''Czech Republic''),
    (''czech republic'', ''Czech Republic''),
    (''slovakia'', ''Slovakia''),
    (''romania'', ''Romania''),
    (''bulgaria'', ''Bulgaria''),
    (''finland'', ''Finland''),
    (''sweden'', ''Sweden''),
    (''norway'', ''Norway''),
    (''denmark'', ''Denmark''),
    (''netherlands'', ''Netherlands''),
    (''belgium'', ''Belgium''),
    (''spain'', ''Spain''),
    (''italy'', ''Italy''),
    (''greece'', ''Greece''),
    (''portugal'', ''Portugal''),
    (''moldova'', ''Moldova''),
    (''luxembourg'', ''Luxembourg''),
    (''hungary'', ''Hungary'')]"

definition mapping :: "(string \<times> string) list" where
  "mapping = dict_literal mapping_items"

text \<open>
  The loop \<^verbatim>\<open>for key, value in mapping.items()\<close>: the value of the first item whose key
  equals \<^verbatim>\<open>country_lower\<close> or occurs in it, \<^verbatim>\<open>None\<close> when the loop ends without returning.
\<close>

fun mapping_scan :: "(string \<times> string) list \<Rightarrow> string \<Rightarrow> string option" where
  "mapping_scan [] country_lower = None"
| "mapping_scan ((key, val) # items) country_lower =
     (if key = country_lower \<or> contains key country_lower then Some val
      else mapping_scan items country_lower)"

definition normalize_country_name :: "string \<Rightarrow> string" where
  "normalize_country_name country =
     (case mapping_scan mapping (lower country) of
        Some val \<Rightarrow> val
      | None \<Rightarrow> title country)"

section \<open>\<^verbatim>\<open>_extract_countries_with_counts\<close>\<close>

text \<open>
  \<^verbatim>\<open>\b\<close> holds between two neighbouring positions when exactly one of them is a word
  character; the start and the end of the text count as non-word.
\<close>

fun word_at :: "char option \<Rightarrow> bool" where
  "word_at None = False"
| "word_at (Some c) = is_word c"

definition boundary :: "char option \<Rightarrow> char option \<Rightarrow> bool" where
  "boundary prev nxt = (word_at prev \<noteq> word_at nxt)"

fun first_char :: "string \<Rightarrow> char option" where
  "first_char [] = None"
| "first_char (c # cs) = Some c"

fun last_char :: "string \<Rightarrow> char option" where
  "last_char [] = None"
| "last_char (c # cs) = Some (last (c # cs))"

text \<open>
  The pattern \<^verbatim>\<open>r'\b' + re.escape(country_lower) + r'\b'\<close> matches at the head of \<^verbatim>\<open>rest\<close>,
  where \<^verbatim>\<open>prev\<close> is the character before it: a boundary, the token literally, a boundary.
\<close>

definition match_here :: "string \<Rightarrow> char option \<Rightarrow> string \<Rightarrow> bool" where
  "match_here tok prev rest =
     (boundary prev (first_char rest) \<and> startswith rest tok \<and>
      boundary (last_char tok) (first_char (drop (length tok) rest)))"

text \<open>
  \<^verbatim>\<open>len(re.findall(pattern, text_lower))\<close> for such a pattern with a non-empty token: the
  scan goes from left to right, and after a match it resumes behind the match, so the matches
  do not overlap.
\<close>

fun findall_count :: "string \<Rightarrow> char option \<Rightarrow> string \<Rightarrow> nat" where
  "findall_count tok prev [] = 0"
| "findall_count tok prev (c # cs) =
     (if tok \<noteq> [] \<and> match_here tok prev (c # cs)
      then Suc (findall_count tok (last_char tok) (drop (length tok) (c # cs)))
      else findall_count tok (Some c) cs)"

definition count_matches :: "string \<Rightarrow> string \<Rightarrow> nat" where
  "count_matches country text_lower = findall_count (lower country) None text_lower"

text \<open>
  \<^verbatim>\<open>sorted(self.COUNTRY_KEYWORDS, key=len, reverse=True)\<close>: a stable sort by descending
  length of the set's elements, taken in the set's iteration order \<^verbatim>\<open>iteration\<close>.
\<close>

definition sorted_countries :: "string list \<Rightarrow> string list" where
  "sorted_countries iteration = sort_key (\<lambda>country. - int (length country)) iteration"

text \<open>The loop body, on the pair \<^verbatim>\<open>(found_countries, country_mentions)\<close>.\<close>

definition countries_step ::
  "string \<Rightarrow> string \<Rightarrow> string list \<times> (string \<rightharpoonup> nat) \<Rightarrow> string list \<times> (string \<rightharpoonup> nat)" where
  "countries_step text_lower country st =
     (let (found_countries, country_mentions) = st;
          count = count_matches country text_lower
      in if count \<noteq> 0
         then (let normalized = normalize_country_name country;
                   country_mentions' = country_mentions(normalized \<mapsto>
                       (case country_mentions normalized of None \<Rightarrow> 0 | Some n \<Rightarrow> n) + count)
               in (if normalized \<notin> set found_countries then found_countries @ [normalized]
                   else found_countries,
                   country_mentions'))
         else st)"

fun countries_loop ::
  "string list \<Rightarrow> string \<Rightarrow> string list \<times> (string \<rightharpoonup> nat) \<Rightarrow> string list \<times> (string \<rightharpoonup> nat)" where
  "countries_loop [] text_lower st = st"
| "countries_loop (country # countries) text_lower st =
     countries_loop countries text_lower (countries_step text_lower country st)"

definition extract_countries_with_counts ::
  "string list \<Rightarrow> string option \<Rightarrow> py_error + (string list \<times> (string \<rightharpoonup> nat))" where
  "extract_countries_with_counts iteration text =
     (case py_lower text of
        Inl e \<Rightarrow> Inl e
      | Inr text_lower \<Rightarrow>
          Inr (countries_loop (sorted_countries iteration) text_lower ([], Map.empty)))"

section \<open>The specification's wording of the country extraction\<close>

text \<open>
  The specification's word-boundary occurrence: the token stands in the text at index \<^verbatim>\<open>i\<close>
  and is not adjacent to a word character on either side.
\<close>

definition occurs_at :: "string \<Rightarrow> string \<Rightarrow> nat \<Rightarrow> bool" where
  "occurs_at tok text i =
     (take (length tok) (drop i text) = tok \<and>
      \<not> word_at (last_char (take i text)) \<and>
      \<not> word_at (first_char (drop (i + length tok) text)))"

definition standalone_occurrence :: "string \<Rightarrow> string \<Rightarrow> bool" where
  "standalone_occurrence tok text = list_ex (occurs_at tok text) [0..<Suc (length text)]"

text \<open>
  The specification's count of the non-overlapping boundary-respecting occurrences of a
  token, from the index \<^verbatim>\<open>i\<close> on: the indices are visited from left to right, and an
  occurrence that is counted hides the indices that it covers.
\<close>

function spec_occurrences_from :: "string \<Rightarrow> string \<Rightarrow> nat \<Rightarrow> nat" where
  "spec_occurrences_from tok text i =
     (if tok = [] \<or> length text < i then 0
      else if occurs_at tok text i then Suc (spec_occurrences_from tok text (i + length tok))
      else spec_occurrences_from tok text (Suc i))"
  by pat_completeness auto
termination
proof (relation "measure (\<lambda>(tok, text, i). Suc (length text) - i)")
  show "wf (measure (\<lambda>(tok, text, i). Suc (length text) - i))"
    by simp
next
  fix tok s :: string and i :: nat
  assume "\<not> (tok = [] \<or> length s < i)"
  then have "0 < length tok" and "i \<le> length s"
    by simp_all
  then have "Suc (length s) - (i + length tok) < Suc (length s) - i"
    by arith
  then show "((tok, s, i + length tok), (tok, s, i))
      \<in> measure (\<lambda>(tok, text, i). Suc (length text) - i)"
    by simp
next
  fix tok s :: string and i :: nat
  assume "\<not> (tok = [] \<or> length s < i)"
  then have "i \<le> length s"
    by simp
  then show "((tok, s, Suc i), (tok, s, i))
      \<in> measure (\<lambda>(tok, text, i). Suc (length text) - i)"
    by simp
qed

definition spec_occurrences :: "string \<Rightarrow> string \<Rightarrow> nat" where
  "spec_occurrences tok text = spec_occurrences_from tok text 0"

text \<open>
  The specification's normalisation rule: exact table lookup first; if no exact key matches,
  the value of a key of the table (the first one, in the order of the table) that is a
  substring of the token; if nothing matches, the token in title case.
\<close>

definition spec_normalize :: "string \<Rightarrow> string" where
  "spec_normalize token =
     (case map_of mapping token of
        Some canonical \<Rightarrow> canonical
      | None \<Rightarrow>
          (case find (\<lambda>item. contains (fst item) token) mapping of
             Some item \<Rightarrow> snd item
           | None \<Rightarrow> title token))"

text \<open>
  The specification's count for a canonical name: the sum, over the tokens of the registry
  that normalise to the name, of the occurrences of the token in the lower-cased text.
\<close>

definition spec_mention_total :: "string \<Rightarrow> string \<Rightarrow> nat" where
  "spec_mention_total text_lower canonical =
     sum_list (map (\<lambda>token. spec_occurrences token text_lower)
       (filter (\<lambda>token. spec_normalize token = canonical) COUNTRY_KEYWORDS))"

section \<open>Regular expressions of \<^verbatim>\<open>_parse_date\<close>\<close>

text \<open>
  Each of the six patterns of \<^verbatim>\<open>_parse_date\<close> is a sequence of pieces; a piece is a character
  class with a greedy repetition \<^verbatim>\<open>{lo,hi}\<close> (\<^verbatim>\<open>+\<close> is \<^verbatim>\<open>{1,}\<close>, \<^verbatim>\<open>?\<close> is \<^verbatim>\<open>{0,1}\<close>, a
  single character is \<^verbatim>\<open>{1,1}\<close>), in a capturing group or not. The patterns contain no
  letters, so the flag \<^verbatim>\<open>re.IGNORECASE\<close> changes nothing.
\<close>

datatype char_class = Word | Space | Digit | OneOf string

fun in_class :: "char_class \<Rightarrow> char \<Rightarrow> bool" where
  "in_class Word c = is_word c"
| "in_class Space c = is_space c"
| "in_class Digit c = is_digit c"
| "in_class (OneOf cs) c = (c \<in> set cs)"

datatype piece = Piece (capturing: bool) (cls: char_class) (lo: nat) (hi: "nat option")

definition limit :: "nat option \<Rightarrow> string \<Rightarrow> string" where
  "limit h s = (case h of None \<Rightarrow> s | Some n \<Rightarrow> take n s)"

text \<open>
  Backtracking over a greedy repetition: \<^verbatim>\<open>rtaken\<close> holds the characters taken so far, last
  one first. The continuation \<^verbatim>\<open>k\<close> matches the rest of the pattern; when it fails, the
  repetition gives its last character back, as long as \<^verbatim>\<open>lo\<close> characters remain.
\<close>

fun give_back :: "(string \<Rightarrow> string \<Rightarrow> 'a option) \<Rightarrow> nat \<Rightarrow> string \<Rightarrow> string \<Rightarrow> 'a option" where
  "give_back k l [] rest = (if l = 0 then k [] rest else None)"
| "give_back k l (c # rtaken) rest =
     (if length (c # rtaken) < l then None
      else case k (rev (c # rtaken)) rest of
             Some r \<Rightarrow> Some r
           | None \<Rightarrow> give_back k l rtaken (c # rest))"

text \<open>\<^verbatim>\<open>re.match\<close>: the groups of the match of the pieces at the head of the string.\<close>

primrec match_pieces :: "piece list \<Rightarrow> string \<Rightarrow> string list option" where
  "match_pieces [] s = Some []"
| "match_pieces (p # ps) s =
     (let run = takeWhile (in_class (cls p)) (limit (hi p) s)
      in give_back
           (\<lambda>taken rest. map_option (\<lambda>groups. if capturing p then taken # groups else groups)
                            (match_pieces ps rest))
           (lo p) (rev run) (drop (length run) s))"

text \<open>\<^verbatim>\<open>re.search(pattern, s).groups()\<close>: the match at the leftmost position that has one.\<close>

fun re_search :: "piece list \<Rightarrow> string \<Rightarrow> string list option" where
  "re_search ps [] = match_pieces ps []"
| "re_search ps (c # cs) =
     (case match_pieces ps (c # cs) of
        Some groups \<Rightarrow> Some groups
      | None \<Rightarrow> re_search ps cs)"

section \<open>Dates\<close>

text \<open>\<^verbatim>\<open>int(s)\<close> on a string of digits, and \<^verbatim>\<open>s.zfill(width)\<close>.\<close>

definition digit_value :: "char \<Rightarrow> nat" where
  "digit_value c = py_ord c - 48"

definition int_of :: "string \<Rightarrow> nat" where
  "int_of s = foldl (\<lambda>n c. 10 * n + digit_value c) 0 s"

definition zfill :: "nat \<Rightarrow> string \<Rightarrow> string" where
  "zfill width s = replicate (width - length s) (CHR ''0'') @ s"

text \<open>\<^verbatim>\<open>s.strip()\<close>\<close>

definition strip :: "string \<Rightarrow> string" where
  "strip s = rev (dropWhile is_space (rev (dropWhile is_space s)))"

text \<open>A date, as \<^verbatim>\<open>(year, month, day)\<close>, and the calendar.\<close>

type_synonym date = "nat \<times> nat \<times> nat"

definition is_leap :: "nat \<Rightarrow> bool" where
  "is_leap y = (y mod 4 = 0 \<and> (y mod 100 \<noteq> 0 \<or> y mod 400 = 0))"

definition days_in_month :: "nat \<Rightarrow> nat \<Rightarrow> nat" where
  "days_in_month y m =
     (if m = 2 then (if is_leap y then 29 else 28)
      else if m = 4 \<or> m = 6 \<or> m = 9 \<or> m = 11 then 30 else 31)"

text \<open>
  \<^verbatim>\<open>datetime.strptime(date_str, '%Y-%m-%d')\<close>. The directives stand for the regular expressions
  \<^verbatim>\<open>\d\d\d\d\<close>, \<^verbatim>\<open>1[0-2]|0[1-9]|[1-9]\<close> and \<^verbatim>\<open>3[01]|[12]\d|0[1-9]|[1-9]| [1-9]\<close>; the whole
  string has to be consumed, and the numbers have to form a date of the calendar with a year
  from 1 on. \<^verbatim>\<open>None\<close> stands for \<^verbatim>\<open>ValueError\<close>.
\<close>

fun strptime_month :: "string \<Rightarrow> (nat \<times> string) option" where
  "strptime_month (a # b # rest) =
     (if a = CHR ''1'' \<and> b \<in> set ''012'' then Some (10 + digit_value b, rest)
      else if a = CHR ''0'' \<and> b \<in> set ''123456789'' then Some (digit_value b, rest)
      else if a \<in> set ''123456789'' then Some (digit_value a, b # rest)
      else None)"
| "strptime_month [a] = (if a \<in> set ''123456789'' then Some (digit_value a, []) else None)"
| "strptime_month [] = None"

fun strptime_day :: "string \<Rightarrow> (nat \<times> string) option" where
  "strptime_day (a # b # rest) =
     (if a = CHR ''3'' \<and> b \<in> set ''01'' then Some (30 + digit_value b, rest)
      else if a \<in> set ''12'' \<and> is_digit b then Some (10 * digit_value a + digit_value b, rest)
      else if a = CHR ''0'' \<and> b \<in> set ''123456789'' then Some (digit_value b, rest)
      else if a \<in> set ''123456789'' then Some (digit_value a, b # rest)
      else if a = CHR '' '' \<and> b \<in> set ''123456789'' then Some (digit_value b, rest)
      else None)"
| "strptime_day [a] = (if a \<in> set ''123456789'' then Some (digit_value a, []) else None)"
| "strptime_day [] = None"

definition strptime_ymd :: "string \<Rightarrow> date option" where
  "strptime_ymd date_str =
     (case date_str of
        y1 # y2 # y3 # y4 # sep1 # rest1 \<Rightarrow>
          if list_all is_digit [y1, y2, y3, y4] \<and> sep1 = CHR ''-'' then
            (case strptime_month rest1 of
               None \<Rightarrow> None
             | Some (m, rest2) \<Rightarrow>
                 (case rest2 of
                    sep2 # rest3 \<Rightarrow>
                      if sep2 = CHR ''-'' then
                        (case strptime_day rest3 of
                           None \<Rightarrow> None
                         | Some (d, rest4) \<Rightarrow>
                             let y = int_of [y1, y2, y3, y4]
                             in if rest4 = [] \<and> 1 \<le> y \<and> d \<le> days_in_month y m
                                then Some (y, m, d) else None)
                      else None
                  | [] \<Rightarrow> None))
          else None
      | _ \<Rightarrow> None)"

text \<open>\<^verbatim>\<open>_validate_date\<close>\<close>

definition validate_date :: "string \<Rightarrow> bool" where
  "validate_date date_str =
     (case strptime_ymd date_str of
        None \<Rightarrow> False
      | Some (year, month, day) \<Rightarrow> if year < 2000 \<or> year > 2030 then False else True)"

text \<open>
  \<^verbatim>\<open>d.strftime('%Y-%m-%d')\<close> for a date of \<^verbatim>\<open>datetime\<close>, whose year has at most four digits.
  The C library of Linux does not pad \<^verbatim>\<open>%Y\<close>: the year 1 is printed as \<^verbatim>\<open>1\<close>.
\<close>

definition digit_char :: "nat \<Rightarrow> char" where
  "digit_char n = ''0123456789'' ! (n mod 10)"

definition year_digits :: "nat \<Rightarrow> string" where
  "year_digits year =
     (if year < 10 then [digit_char year]
      else if year < 100 then [digit_char (year div 10), digit_char year]
      else if year < 1000 then [digit_char (year div 100), digit_char (year div 10), digit_char year]
      else [digit_char (year div 1000), digit_char (year div 100), digit_char (year div 10),
            digit_char year])"

definition strftime_ymd :: "date \<Rightarrow> string" where
  "strftime_ymd d =
     (case d of (year, month, day) \<Rightarrow>
        year_digits year @ ''-'' @
        [digit_char (month div 10), digit_char month] @ ''-'' @
        [digit_char (day div 10), digit_char day])"

text \<open>The local dict \<^verbatim>\<open>months\<close> of \<^verbatim>\<open>_parse_date\<close>.\<close>

definition months :: "(string \<times> string) list" where
  "months =
   [(''jan'', ''01''), (''january'', ''01''), (''feb'', ''02''), (''february'', ''02''),
    (''mar'', ''03''), (''march'', ''03''), (''apr'', ''04''), (''april'', ''04''),
    (''may'', ''05''), (''jun'', ''06''), (''june'', ''06''), (''jul'', ''07''), (''july'', ''07''),
    (''aug'', ''08''), (''august'', ''08''), (''sep'', ''09''), (''sept'', ''09''),
    (''september'', ''09''),
    (''oct'', ''10''), (''october'', ''10''), (''nov'', ''11''), (''november'', ''11''),
    (''dec'', ''12''), (''december'', ''12'')]"

text \<open>
  \<^verbatim>\<open>_format_date_from_match\<close>, on the groups of the match; \<^verbatim>\<open>None\<close> is Python's \<^verbatim>\<open>None\<close>.
\<close>

datatype format_type = month_day_year | day_month_year

definition format_date_from_match ::
  "string list \<Rightarrow> (string \<times> string) list \<Rightarrow> format_type \<Rightarrow> string option" where
  "format_date_from_match groups months_dict ft =
     (if length groups < 3 then None
      else let (month_str, day, year) =
                 (case ft of
                    month_day_year \<Rightarrow> (lower (groups ! 0), groups ! 1, groups ! 2)
                  | day_month_year \<Rightarrow> (lower (groups ! 1), groups ! 0, groups ! 2))
           in case map_of months_dict month_str of
                Some month \<Rightarrow>
                  if month \<noteq> [] then Some (year @ ''-'' @ month @ ''-'' @ zfill 2 day) else None
              | None \<Rightarrow> None)"

text \<open>
  \<^verbatim>\<open>_try_eu_or_us_format\<close>, on the three groups of the match, under the names that the code
  gives them: \<^verbatim>\<open>day, month, year = groups[0], groups[1], groups[2]\<close>.
\<close>

definition try_eu_or_us_format :: "string \<Rightarrow> string \<Rightarrow> string \<Rightarrow> string" where
  "try_eu_or_us_format day month year =
     (if int_of day > 12 then year @ ''-'' @ zfill 2 month @ ''-'' @ zfill 2 day
      else if int_of month > 12 then year @ ''-'' @ zfill 2 day @ ''-'' @ zfill 2 month
      else year @ ''-'' @ zfill 2 day @ ''-'' @ zfill 2 month)"

text \<open>\<^verbatim>\<open>_format_month_year\<close>\<close>

definition format_month_year :: "string list \<Rightarrow> (string \<times> string) list \<Rightarrow> string option" where
  "format_month_year groups months_dict =
     (if length groups < 2 then None
      else let month_str = lower (groups ! 0); year = groups ! 1
           in case map_of months_dict month_str of
                Some month \<Rightarrow> if month \<noteq> [] then Some (year @ ''-'' @ month @ ''-01'') else None
              | None \<Rightarrow> None)"

text \<open>
  The two inline formatters
  \<^verbatim>\<open>f"{m.group(1)}-{m.group(2).zfill(2)}-{m.group(3).zfill(2)}"\<close>,
  and the call of \<^verbatim>\<open>_try_eu_or_us_format\<close>, on a match with three groups.
\<close>

definition format_ymd :: "string list \<Rightarrow> string option" where
  "format_ymd groups =
     (case groups of
        [g1, g2, g3] \<Rightarrow> Some (g1 @ ''-'' @ zfill 2 g2 @ ''-'' @ zfill 2 g3)
      | _ \<Rightarrow> None)"

definition format_eu_or_us :: "string list \<Rightarrow> string option" where
  "format_eu_or_us groups =
     (case groups of
        [g1, g2, g3] \<Rightarrow> Some (try_eu_or_us_format g1 g2 g3)
      | _ \<Rightarrow> None)"

text \<open>The list \<^verbatim>\<open>patterns\<close>, in its order.\<close>

definition pattern_month_day_year :: "piece list" where
  "pattern_month_day_year =
     [Piece True Word 1 None, Piece False Space 1 None, Piece True Digit 1 (Some 2),
      Piece False (OneOf '','') 0 (Some 1), Piece False Space 1 None,
      Piece True Digit 4 (Some 4)]"

definition pattern_day_month_year :: "piece list" where
  "pattern_day_month_year =
     [Piece True Digit 1 (Some 2), Piece False Space 1 None, Piece True Word 1 None,
      Piece False Space 1 None, Piece True Digit 4 (Some 4)]"

definition pattern_iso :: "piece list" where
  "pattern_iso =
     [Piece True Digit 4 (Some 4), Piece False (OneOf ''-/'') 1 (Some 1),
      Piece True Digit 1 (Some 2), Piece False (OneOf ''-/'') 1 (Some 1),
      Piece True Digit 1 (Some 2)]"

definition pattern_slashes :: "piece list" where
  "pattern_slashes =
     [Piece True Digit 1 (Some 2), Piece False (OneOf ''/'') 1 (Some 1),
      Piece True Digit 1 (Some 2), Piece False (OneOf ''/'') 1 (Some 1),
      Piece True Digit 4 (Some 4)]"

definition pattern_dots :: "piece list" where
  "pattern_dots =
     [Piece True Digit 4 (Some 4), Piece False (OneOf ''.'') 1 (Some 1),
      Piece True Digit 1 (Some 2), Piece False (OneOf ''.'') 1 (Some 1),
      Piece True Digit 1 (Some 2)]"

definition pattern_month_year :: "piece list" where
  "pattern_month_year =
     [Piece True Word 1 None, Piece False Space 1 None, Piece True Digit 4 (Some 4)]"

definition patterns :: "(piece list \<times> (string list \<Rightarrow> string option)) list" where
  "patterns =
     [(pattern_month_day_year, \<lambda>m. format_date_from_match m months month_day_year),
      (pattern_day_month_year, \<lambda>m. format_date_from_match m months day_month_year),
      (pattern_iso, format_ymd),
      (pattern_slashes, format_eu_or_us),
      (pattern_dots, format_ymd),
      (pattern_month_year, \<lambda>m. format_month_year m months)]"

text \<open>
  The loop over the patterns: a pattern without a match, a formatter that returns \<^verbatim>\<open>None\<close> or
  an empty string, and a result that fails \<^verbatim>\<open>_validate_date\<close> all lead to the next pattern.
\<close>

fun try_patterns ::
  "(piece list \<times> (string list \<Rightarrow> string option)) list \<Rightarrow> string \<Rightarrow> string option" where
  "try_patterns [] date_text = None"
| "try_patterns ((pattern, formatter) # rest) date_text =
     (case re_search pattern date_text of
        None \<Rightarrow> try_patterns rest date_text
      | Some groups \<Rightarrow>
          (case formatter groups of
             None \<Rightarrow> try_patterns rest date_text
           | Some result \<Rightarrow>
               if result \<noteq> [] \<and> validate_date result then Some result
               else try_patterns rest date_text))"

text \<open>
  The library \<^verbatim>\<open>dateutil\<close> is not part of the program. The model takes as a parameter what
  the \<^verbatim>\<open>try\<close> block does on the stripped text: the call
  \<^verbatim>\<open>date_parser.parse(date_text, fuzzy=True, default=datetime(2020, 1, 1))\<close> returns a date;
  or the import or the call raises \<^verbatim>\<open>ImportError\<close>, \<^verbatim>\<open>ValueError\<close> or \<^verbatim>\<open>TypeError\<close>, which
  the \<^verbatim>\<open>except\<close> clause catches; or the call raises an exception of another class (the
  parser raises \<^verbatim>\<open>OverflowError\<close> on a number that is too large), which the clause does not
  catch.
\<close>

datatype parser_result = Parsed date | Caught | Raised py_error

type_synonym dateutil = "string \<Rightarrow> parser_result"

text \<open>The library is not installed: the import raises \<^verbatim>\<open>ImportError\<close>.\<close>

definition dateutil_absent :: dateutil where
  "dateutil_absent = (\<lambda>date_text. Caught)"

text \<open>
  The library is installed, and what it does on one text is known (on the other texts this
  parser is made to fail).
\<close>

definition dateutil_parsing :: "string \<Rightarrow> date \<Rightarrow> dateutil" where
  "dateutil_parsing known d = (\<lambda>date_text. if date_text = known then Parsed d else Caught)"

text \<open>
  \<^verbatim>\<open>_parse_date\<close>: \<^verbatim>\<open>Inr\<close> holds the returned value, \<^verbatim>\<open>Inl\<close> the exception that leaves the
  function.
\<close>

definition parse_date :: "dateutil \<Rightarrow> string option \<Rightarrow> py_error + string option" where
  "parse_date date_parser date_text =
     (case date_text of
        None \<Rightarrow> Inr None
      | Some t \<Rightarrow>
          if t = [] then Inr None
          else let date_text = strip t
               in case date_parser date_text of
                    Parsed parsed_date \<Rightarrow> Inr (Some (strftime_ymd parsed_date))
                  | Caught \<Rightarrow> Inr (try_patterns patterns date_text)
                  | Raised e \<Rightarrow> Inl e)"

section \<open>Relative dates\<close>

text \<open>
  \<^verbatim>\<open>datetime.now() - timedelta(days=n)\<close>, on the date of \<^verbatim>\<open>now\<close>: the library turns the date
  into its ordinal (\<^verbatim>\<open>_ymd2ord\<close>), subtracts, and turns the ordinal back (\<^verbatim>\<open>_ord2ymd\<close>).
  Index 0 of the two tables is a placeholder.
\<close>

definition DAYS_IN_MONTH :: "nat list" where
  "DAYS_IN_MONTH = [0, 31, 28, 31, 30, 31, 30, 31, 31, 30, 31, 30, 31]"

definition DAYS_BEFORE_MONTH :: "nat list" where
  "DAYS_BEFORE_MONTH = [0, 0, 31, 59, 90, 120, 151, 181, 212, 243, 273, 304, 334]"

definition days_before_year :: "nat \<Rightarrow> nat" where
  "days_before_year year = (let y = year - 1 in y * 365 + y div 4 - y div 100 + y div 400)"

definition days_before_month :: "nat \<Rightarrow> nat \<Rightarrow> nat" where
  "days_before_month year month =
     DAYS_BEFORE_MONTH ! month + (if month > 2 \<and> is_leap year then 1 else 0)"

definition ymd2ord :: "date \<Rightarrow> nat" where
  "ymd2ord d = (case d of (year, month, day) \<Rightarrow>
     days_before_year year + days_before_month year month + day)"

definition ord2ymd :: "nat \<Rightarrow> date" where
  "ord2ymd ordinal =
     (let n = ordinal - 1;
          n400 = n div 146097; n = n mod 146097;
          n100 = n div 36524; n = n mod 36524;
          n4 = n div 1461; n = n mod 1461;
          n1 = n div 365; n = n mod 365;
          year = n400 * 400 + 1 + n100 * 100 + n4 * 4 + n1
      in if n1 = 4 \<or> n100 = 4 then (year - 1, 12, 31)
         else let leapyear = (n1 = 3 \<and> (n4 \<noteq> 24 \<or> n100 = 3));
                  month = (n + 50) div 32;
                  preceding = DAYS_BEFORE_MONTH ! month + (if month > 2 \<and> leapyear then 1 else 0);
                  (month, preceding) =
                    (if preceding > n
                     then (month - 1,
                           preceding - (DAYS_IN_MONTH ! (month - 1) +
                                        (if month - 1 = 2 \<and> leapyear then 1 else 0)))
                     else (month, preceding))
              in (year, month, n - preceding + 1))"

text \<open>
  The body of each \<^verbatim>\<open>try\<close> block of \<^verbatim>\<open>_parse_google_date\<close>: the date \<^verbatim>\<open>days\<close> days before
  \<^verbatim>\<open>now\<close>, formatted; \<^verbatim>\<open>None\<close> when the subtraction leaves the range of dates and raises
  \<^verbatim>\<open>OverflowError\<close>, which the block swallows.
\<close>

definition days_ago :: "date \<Rightarrow> nat \<Rightarrow> string option" where
  "days_ago now days =
     (if days < ymd2ord now then Some (strftime_ymd (ord2ymd (ymd2ord now - days))) else None)"

text \<open>
  The patterns \<^verbatim>\<open>(\d+)\s+day[s]?\s+ago\<close>, \<^verbatim>\<open>(\d+)\s+week[s]?\s+ago\<close>,
  \<^verbatim>\<open>(\d+)\s+month[s]?\s+ago\<close> and \<^verbatim>\<open>(\d+)\s+year[s]?\s+ago\<close>.
\<close>

definition literal :: "string \<Rightarrow> piece list" where
  "literal s = map (\<lambda>c. Piece False (OneOf [c]) 1 (Some 1)) s"

definition pattern_ago :: "string \<Rightarrow> piece list" where
  "pattern_ago unit =
     [Piece True Digit 1 None, Piece False Space 1 None] @ literal unit @
     [Piece False (OneOf ''s'') 0 (Some 1), Piece False Space 1 None] @ literal ''ago''"

text \<open>
  One of the four blocks: search, \<^verbatim>\<open>int(match.group(1))\<close>, subtract \<^verbatim>\<open>factor\<close> days for each
  unit. \<^verbatim>\<open>None\<close> means that the block does not return and the next one is tried.
\<close>

definition relative :: "date \<Rightarrow> string \<Rightarrow> nat \<Rightarrow> string \<Rightarrow> string option" where
  "relative now unit factor date_text =
     (case re_search (pattern_ago unit) date_text of
        None \<Rightarrow> None
      | Some groups \<Rightarrow> days_ago now (int_of (groups ! 0) * factor))"

text \<open>\<^verbatim>\<open>_parse_google_date\<close>, with the date of \<^verbatim>\<open>datetime.now()\<close> as a parameter.\<close>

definition parse_google_date ::
  "date \<Rightarrow> dateutil \<Rightarrow> string option \<Rightarrow> py_error + string option" where
  "parse_google_date now date_parser date_text =
     (case date_text of
        None \<Rightarrow> Inr None
      | Some t \<Rightarrow>
          if t = [] then Inr None
          else let date_text = lower (strip t)
               in (case relative now ''day'' 1 date_text of
                     Some r \<Rightarrow> Inr (Some r)
                   | None \<Rightarrow>
                  (case relative now ''week'' 7 date_text of
                     Some r \<Rightarrow> Inr (Some r)
                   | None \<Rightarrow>
                  (case relative now ''month'' 30 date_text of
                     Some r \<Rightarrow> Inr (Some r)
                   | None \<Rightarrow>
                  (case relative now ''year'' 365 date_text of
                     Some r \<Rightarrow> Inr (Some r)
                   | None \<Rightarrow>
                  (case (if contains ''yesterday'' date_text then days_ago now 1 else None) of
                     Some r \<Rightarrow> Inr (Some r)
                   | None \<Rightarrow>
                       if contains ''today'' date_text then Inr (Some (strftime_ymd now))
                       else parse_date date_parser (Some date_text)))))))"

section \<open>Auxiliary notions for the proofs\<close>

text \<open>\<^verbatim>\<open>country_mentions.get(c, 0)\<close>\<close>

definition mentions_get :: "(string \<rightharpoonup> nat) \<Rightarrow> string \<Rightarrow> nat" where
  "mentions_get m c = (case m c of None \<Rightarrow> 0 | Some n \<Rightarrow> n)"

text \<open>The part of a canonical name's count that comes from the tokens of a list.\<close>

definition part_total :: "string list \<Rightarrow> string \<Rightarrow> string \<Rightarrow> nat" where
  "part_total cs text_lower c =
     sum_list (map (\<lambda>country. count_matches country text_lower)
       (filter (\<lambda>country. normalize_country_name country = c) cs))"

text \<open>
  The invariant of the loop of \<^verbatim>\<open>_extract_countries_with_counts\<close>: the list has no
  duplicates, it holds the keys of the dict, and no stored count is zero.
\<close>

definition loop_inv :: "string list \<times> (string \<rightharpoonup> nat) \<Rightarrow> bool" where
  "loop_inv st = (distinct (fst st) \<and> set (fst st) = dom (snd st) \<and>
     (\<forall>c n. snd st c = Some n \<longrightarrow> 0 < n))"

section \<open>Characters and lower-casing\<close>

lemmas char_class_defs = py_ord_def is_upper_def is_lower_def is_digit_def is_word_def is_space_def
  is_latin1_alnum_def is_latin1_upper_def

lemma not_upper_notin: "\<not> is_upper c \<Longrightarrow> c \<notin> set ascii_uppercase"
  by (auto simp: ascii_uppercase_def py_ord_def is_upper_def)

lemma lower_char_id: "\<not> is_upper c \<Longrightarrow> \<not> is_latin1_upper c \<Longrightarrow> lower_char c = c"
proof -
  assume l: "\<not> is_latin1_upper c"
  assume "\<not> is_upper c"
  then have "c \<notin> set ascii_uppercase" by (rule not_upper_notin)
  then have "c \<notin> fst ` set (zip ascii_uppercase ascii_lowercase)"
    by (simp add: ascii_uppercase_def ascii_lowercase_def)
  then have "map_of (zip ascii_uppercase ascii_lowercase) c = None"
    by (simp add: map_of_eq_None_iff)
  with l show ?thesis by (simp add: lower_char_def)
qed

lemma lower_id: "list_all (\<lambda>c. \<not> is_upper c \<and> \<not> is_latin1_upper c) s \<Longrightarrow> lower s = s"
  by (induction s) (simp_all add: lower_def lower_char_id)

lemma lower_COUNTRY_KEYWORDS: "map lower COUNTRY_KEYWORDS = COUNTRY_KEYWORDS"
  by (simp add: COUNTRY_KEYWORDS_def lower_id char_class_defs)

lemma lower_country: "country \<in> set COUNTRY_KEYWORDS \<Longrightarrow> lower country = country"
  using lower_COUNTRY_KEYWORDS by (metis list.map_id map_eq_conv id_apply)

lemma distinct_COUNTRY_KEYWORDS: "distinct COUNTRY_KEYWORDS"
  by (simp add: COUNTRY_KEYWORDS_def)

section \<open>Normalisation of country names\<close>

text \<open>The dict that the literal \<^verbatim>\<open>mapping\<close> denotes: 31 items, \<^verbatim>\<open>'uk'\<close> first.\<close>

lemma mapping_eq:
  "mapping =
   [(''uk'', ''United Kingdom''),
    (''britain'', ''United Kingdom''),
    (''gb'', ''United Kingdom''),
    (''great britain'', ''United Kingdom''),
    (''england'', ''United Kingdom''),
    (''ukraine'', ''Ukraine''),
    (''poland'', ''Poland''),
    (''germany'', ''Germany''),
    (''france'', ''France''),
    (''estonia'', ''Estonia''),
    (''latvia'', ''Latvia''),
    (''lithuania'', ''Lithuania''),
    (''czech'', ''Czech Republic''),
    (''czechia'', ''Czech Republic''),
    (''czech republic'', ''Czech Republic''),
    (''slovakia'', ''Slovakia''),
    (''romania'', ''Romania''),
    (''bulgaria'', ''Bulgaria''),
    (''finland'', ''Finland''),
    (''sweden'', ''Sweden''),
    (''norway'', ''Norway''),
    (''denmark'', ''Denmark''),
    (''netherlands'', ''Netherlands''),
    (''belgium'', ''Belgium''),
    (''spain'', ''Spain''),
    (''italy'', ''Italy''),
    (''greece'', ''Greece''),
    (''portugal'', ''Portugal''),
    (''moldova'', ''Moldova''),
    (''luxembourg'', ''Luxembourg''),
    (''hungary'', ''Hungary'')]"
  by (simp add: mapping_def mapping_items_def dict_literal_def)

text \<open>What the loop over the dict returns for each token of the registry.\<close>

lemma scan_COUNTRY_KEYWORDS:
  "map (mapping_scan mapping) COUNTRY_KEYWORDS =
   [Some ''United Kingdom'', Some ''Poland'', Some ''Germany'',
    Some ''France'', Some ''United Kingdom'', None, Some ''United Kingdom'',
    Some ''United Kingdom'', Some ''United Kingdom'', Some ''Estonia'',
    Some ''Latvia'', Some ''Lithuania'', Some ''Czech Republic'',
    Some ''Czech Republic'', Some ''Czech Republic'', Some ''Slovakia'',
    Some ''Romania'', Some ''Bulgaria'', Some ''Finland'', Some ''Sweden'',
    Some ''Norway'', Some ''Denmark'', Some ''Netherlands'', Some ''Belgium'',
    Some ''Spain'', Some ''Luxembourg'', Some ''Hungary'', Some ''Italy'',
    Some ''Greece'', Some ''Portugal'', Some ''Moldova'', None, None]"
  by (simp add: COUNTRY_KEYWORDS_def mapping_eq)

lemma scan_lower_COUNTRY_KEYWORDS:
  "map (\<lambda>country. mapping_scan mapping (lower country)) COUNTRY_KEYWORDS =
   map (mapping_scan mapping) COUNTRY_KEYWORDS"
proof -
  have "map (\<lambda>country. mapping_scan mapping (lower country)) COUNTRY_KEYWORDS =
        map (mapping_scan mapping) (map lower COUNTRY_KEYWORDS)"
    by (simp add: comp_def)
  then show ?thesis by (simp only: lower_COUNTRY_KEYWORDS)
qed

lemma title_fallbacks:
  "map title [''united kingdom'', ''austria'', ''switzerland''] =
   [''United Kingdom'', ''Austria'', ''Switzerland'']"
  by (simp add: title_def char_class_defs upper_char_def lower_char_def
      ascii_lowercase_def ascii_uppercase_def)

lemma filter_via_zip:
  "filter (\<lambda>x. P (f x)) xs = map fst (filter (\<lambda>p. P (snd p)) (zip xs (map f xs)))"
  by (induction xs) simp_all

text \<open>The entry of each token of the registry under exact lookup.\<close>

lemma exact_COUNTRY_KEYWORDS:
  "map (map_of mapping) COUNTRY_KEYWORDS =
   [Some ''Ukraine'', Some ''Poland'', Some ''Germany'',
    Some ''France'', Some ''United Kingdom'', None, Some ''United Kingdom'',
    Some ''United Kingdom'', Some ''United Kingdom'', Some ''Estonia'',
    Some ''Latvia'', Some ''Lithuania'', Some ''Czech Republic'',
    Some ''Czech Republic'', Some ''Czech Republic'', Some ''Slovakia'',
    Some ''Romania'', Some ''Bulgaria'', Some ''Finland'', Some ''Sweden'',
    Some ''Norway'', Some ''Denmark'', Some ''Netherlands'', Some ''Belgium'',
    Some ''Spain'', Some ''Luxembourg'', Some ''Hungary'', Some ''Italy'',
    Some ''Greece'', Some ''Portugal'', Some ''Moldova'', None, None]"
  by (simp add: COUNTRY_KEYWORDS_def mapping_eq)

text \<open>
  Among the tokens of the registry that are exact keys of the table, \<^verbatim>\<open>'ukraine'\<close> is the
  only one for which the loop returns another value than the key's entry.
\<close>

lemma map_pair_zip: "map (\<lambda>x. (f x, g x)) xs = zip (map f xs) (map g xs)"
  by (induction xs) simp_all

lemma shadowed_exact_keys:
  "filter (\<lambda>country. map_of mapping country \<noteq> None \<and>
                      map_of mapping country \<noteq> mapping_scan mapping country)
     COUNTRY_KEYWORDS = [''ukraine'']"
proof -
  have "filter (\<lambda>country. fst (map_of mapping country, mapping_scan mapping country) \<noteq> None \<and>
            fst (map_of mapping country, mapping_scan mapping country) \<noteq>
            snd (map_of mapping country, mapping_scan mapping country)) COUNTRY_KEYWORDS =
        map fst (filter (\<lambda>p. fst (snd p) \<noteq> None \<and> fst (snd p) \<noteq> snd (snd p))
          (zip COUNTRY_KEYWORDS
             (map (\<lambda>country. (map_of mapping country, mapping_scan mapping country))
                COUNTRY_KEYWORDS)))"
    by (rule filter_via_zip)
  also have "map (\<lambda>country. (map_of mapping country, mapping_scan mapping country))
                COUNTRY_KEYWORDS =
             zip (map (map_of mapping) COUNTRY_KEYWORDS)
                 (map (mapping_scan mapping) COUNTRY_KEYWORDS)"
    by (rule map_pair_zip)
  finally show ?thesis
    unfolding exact_COUNTRY_KEYWORDS scan_COUNTRY_KEYWORDS
    by (simp add: COUNTRY_KEYWORDS_def)
qed

text \<open>
  C1 (the code departs from the claim): the token \<^verbatim>\<open>'ukraine'\<close> is in the registry and is an
  exact key of the table with the entry \<^verbatim>\<open>'Ukraine'\<close>, yet the loop tests equality and
  substring containment in one condition, item by item, and the item \<^verbatim>\<open>'uk'\<close> comes first:
  \<^verbatim>\<open>'uk'\<close> occurs in \<^verbatim>\<open>'ukraine'\<close>, so the result is \<^verbatim>\<open>'United Kingdom'\<close>.
\<close>

theorem normalize_ukraine_is_united_kingdom:
  "''ukraine'' \<in> set COUNTRY_KEYWORDS \<and> map_of mapping ''ukraine'' = Some ''Ukraine'' \<and>
   normalize_country_name ''ukraine'' = ''United Kingdom''"
proof -
  have l: "lower ''ukraine'' = ''ukraine''"
    by (rule lower_id) (simp add: char_class_defs)
  have "mapping_scan mapping ''ukraine'' = Some ''United Kingdom''"
    by (simp add: mapping_eq)
  then have "normalize_country_name ''ukraine'' = ''United Kingdom''"
    by (simp add: normalize_country_name_def l)
  moreover have "map_of mapping ''ukraine'' = Some ''Ukraine''"
    by (simp add: mapping_eq)
  moreover have "''ukraine'' \<in> set COUNTRY_KEYWORDS"
    by (simp add: COUNTRY_KEYWORDS_def)
  ultimately show ?thesis by simp
qed

text \<open>
  C9, the claim as stated fails: the token \<^verbatim>\<open>'austria'\<close> is in the registry, no key of the
  table equals it or occurs in it, and its canonical name comes from the title-case fallback.
\<close>

theorem austria_reaches_fallback:
  "''austria'' \<in> set COUNTRY_KEYWORDS \<and> mapping_scan mapping (lower ''austria'') = None \<and>
   normalize_country_name ''austria'' = title ''austria''"
proof -
  have l: "lower ''austria'' = ''austria''"
    by (rule lower_id) (simp add: char_class_defs)
  have s: "mapping_scan mapping ''austria'' = None"
    by (simp add: mapping_eq)
  have "''austria'' \<in> set COUNTRY_KEYWORDS"
    by (simp add: COUNTRY_KEYWORDS_def)
  then show ?thesis by (simp add: normalize_country_name_def l s)
qed

text \<open>
  C9, amended: normalisation is a total function on the registry; the tokens for which the
  loop over the table ends without a result are exactly \<^verbatim>\<open>'united kingdom'\<close>, \<^verbatim>\<open>'austria'\<close>
  and \<^verbatim>\<open>'switzerland'\<close>, every other token resolves through an item of the table, and for
  these three the title-case fallback yields \<^verbatim>\<open>'United Kingdom'\<close>, \<^verbatim>\<open>'Austria'\<close> and
  \<^verbatim>\<open>'Switzerland'\<close>.
\<close>

theorem fallback_tokens:
  "filter (\<lambda>country. mapping_scan mapping (lower country) = None) COUNTRY_KEYWORDS =
     [''united kingdom'', ''austria'', ''switzerland''] \<and>
   map normalize_country_name [''united kingdom'', ''austria'', ''switzerland''] =
     [''United Kingdom'', ''Austria'', ''Switzerland'']"
proof -
  have "filter (\<lambda>country. mapping_scan mapping (lower country) = None) COUNTRY_KEYWORDS =
        map fst (filter (\<lambda>p. snd p = None)
          (zip COUNTRY_KEYWORDS
             (map (\<lambda>country. mapping_scan mapping (lower country)) COUNTRY_KEYWORDS)))"
    by (rule filter_via_zip)
  also have "\<dots> = [''united kingdom'', ''austria'', ''switzerland'']"
    unfolding scan_lower_COUNTRY_KEYWORDS scan_COUNTRY_KEYWORDS
    by (simp add: COUNTRY_KEYWORDS_def)
  finally have a:
    "filter (\<lambda>country. mapping_scan mapping (lower country) = None) COUNTRY_KEYWORDS =
     [''united kingdom'', ''austria'', ''switzerland'']" .
  have "\<forall>country \<in> set (filter (\<lambda>country. mapping_scan mapping (lower country) = None)
      COUNTRY_KEYWORDS). mapping_scan mapping (lower country) = None"
    by simp
  then have "\<forall>country \<in> set [''united kingdom'', ''austria'', ''switzerland''].
      mapping_scan mapping (lower country) = None"
    unfolding a .
  then have "map normalize_country_name [''united kingdom'', ''austria'', ''switzerland''] =
      map title [''united kingdom'', ''austria'', ''switzerland'']"
    by (simp add: normalize_country_name_def)
  with a show ?thesis by (simp only: title_fallbacks)
qed

section \<open>Country mentions\<close>

lemma countries_step_inv: "loop_inv st \<Longrightarrow> loop_inv (countries_step text_lower country st)"
  apply (cases st)
  apply (auto simp: loop_inv_def countries_step_def Let_def split: option.splits if_splits)
  done

lemma countries_step_get:
  "mentions_get (snd (countries_step text_lower country st)) c =
   mentions_get (snd st) c +
   (if normalize_country_name country = c then count_matches country text_lower else 0)"
  by (cases st) (auto simp: countries_step_def Let_def mentions_get_def split: option.splits)

lemma countries_loop_inv: "loop_inv st \<Longrightarrow> loop_inv (countries_loop cs text_lower st)"
  by (induction cs arbitrary: st) (simp_all add: countries_step_inv)

lemma countries_loop_get:
  "mentions_get (snd (countries_loop cs text_lower st)) c =
   mentions_get (snd st) c + part_total cs text_lower c"
  by (induction cs arbitrary: st) (simp_all add: countries_step_get part_total_def)

lemma part_total_perm:
  assumes "distinct xs" "distinct ys" "set xs = set ys"
  shows "part_total xs t c = part_total ys t c"
proof -
  have "distinct (filter (\<lambda>country. normalize_country_name country = c) xs)"
       "distinct (filter (\<lambda>country. normalize_country_name country = c) ys)"
    using assms by simp_all
  then show ?thesis
    unfolding part_total_def using assms(3)
    by (simp add: sum_list_distinct_conv_sum_set)
qed

lemma inv_lookup:
  assumes "loop_inv (found, m)"
  shows "m c = (if mentions_get m c = 0 then None else Some (mentions_get m c))"
    and "c \<in> set found \<longleftrightarrow> 1 \<le> mentions_get m c"
  using assms by (fastforce simp: loop_inv_def mentions_get_def split: option.splits)+

lemma sorted_countries_set: "set (sorted_countries iteration) = set iteration"
  by (simp add: sorted_countries_def)

lemma sorted_countries_distinct: "distinct (sorted_countries iteration) = distinct iteration"
  by (simp add: sorted_countries_def)

lemma countries_loop_result:
  assumes "countries_loop cs t ([], Map.empty) = (found, m)"
  shows "loop_inv (found, m)" and "mentions_get m c = part_total cs t c"
proof -
  have "loop_inv ([], Map.empty)" by (simp add: loop_inv_def)
  then have "loop_inv (countries_loop cs t ([], Map.empty))" by (rule countries_loop_inv)
  then show "loop_inv (found, m)" by (simp only: assms)
  have "mentions_get (snd (countries_loop cs t ([], Map.empty))) c =
        mentions_get (snd ([] :: string list, Map.empty :: string \<rightharpoonup> nat)) c +
        part_total cs t c"
    by (rule countries_loop_get)
  then show "mentions_get m c = part_total cs t c"
    by (simp add: assms mentions_get_def)
qed

section \<open>Word boundaries\<close>

lemma startswith_take: "startswith s p \<Longrightarrow> take (length p) s = p"
  by (induction s p rule: startswith.induct) simp_all

lemma last_char_snoc: "last_char (pre @ [c]) = Some c"
  by (cases pre) simp_all

lemma last_char_word: "tok \<noteq> [] \<Longrightarrow> word_at (last_char tok) = is_word (last tok)"
  by (cases tok) simp_all

lemma match_here_occurs:
  assumes "match_here tok (last_char pre) rest" and "tok \<noteq> []"
      and "is_word (hd tok)" and "is_word (last tok)"
  shows "occurs_at tok (pre @ rest) (length pre)"
proof -
  from assms(1) have b1: "boundary (last_char pre) (first_char rest)"
    and sw: "startswith rest tok"
    and b2: "boundary (last_char tok) (first_char (drop (length tok) rest))"
    by (simp_all add: match_here_def)
  from sw have tk: "take (length tok) rest = tok" by (rule startswith_take)
  with assms(2) obtain c cs where rest: "rest = c # cs" by (cases rest) auto
  with tk assms(2) have "c = hd tok" by (cases tok) auto
  with assms(3) rest have "word_at (first_char rest)" by simp
  with b1 have 1: "\<not> word_at (last_char pre)" by (simp add: boundary_def)
  from assms(2,4) have "word_at (last_char tok)" by (simp add: last_char_word)
  with b2 have 2: "\<not> word_at (first_char (drop (length tok) rest))"
    by (simp add: boundary_def)
  from tk 1 2 show ?thesis by (simp add: occurs_at_def)
qed

lemma findall_count_occurs:
  "findall_count tok prev rest \<noteq> 0 \<Longrightarrow> is_word (hd tok) \<Longrightarrow> is_word (last tok) \<Longrightarrow>
   prev = last_char pre \<Longrightarrow>
   \<exists>i. i \<le> length (pre @ rest) \<and> occurs_at tok (pre @ rest) i"
proof (induction tok prev rest arbitrary: pre rule: findall_count.induct)
  case (1 tok prev)
  then show ?case by simp
next
  case (2 tok prev c cs)
  show ?case
  proof (cases "tok \<noteq> [] \<and> match_here tok prev (c # cs)")
    case True
    then have "match_here tok (last_char pre) (c # cs)" "tok \<noteq> []"
      using 2(6) by simp_all
    then have "occurs_at tok (pre @ c # cs) (length pre)"
      using 2(4,5) by (rule match_here_occurs)
    then show ?thesis by (intro exI [of _ "length pre"]) simp
  next
    case False
    with 2(3) have "findall_count tok (Some c) cs \<noteq> 0" by auto
    moreover have "Some c = last_char (pre @ [c])" by (simp add: last_char_snoc)
    ultimately have
      "\<exists>i. i \<le> length ((pre @ [c]) @ cs) \<and> occurs_at tok ((pre @ [c]) @ cs) i"
      using 2(2) [OF False] 2(4,5) by blast
    then show ?thesis by simp
  qed
qed

lemma standalone_occurrence_iff:
  "standalone_occurrence tok s = (\<exists>i\<le>length s. occurs_at tok s i)"
  unfolding standalone_occurrence_def list_ex_iff set_upt
  by (simp add: Bex_def less_Suc_eq_le)

lemma findall_count_zero:
  assumes "is_word (hd tok)" and "is_word (last tok)"
      and "\<not> standalone_occurrence tok s"
  shows "findall_count tok None s = 0"
proof (rule ccontr)
  assume "findall_count tok None s \<noteq> 0"
  then have "\<exists>i. i \<le> length ([] @ s) \<and> occurs_at tok ([] @ s) i"
    using assms(1,2) by (rule findall_count_occurs) simp
  with assms(3) show False by (auto simp: standalone_occurrence_iff)
qed

lemma COUNTRY_KEYWORDS_edges:
  "list_all (\<lambda>country. is_word (hd country) \<and> is_word (last country)) COUNTRY_KEYWORDS"
  by (simp add: COUNTRY_KEYWORDS_def char_class_defs)

lemma countries_loop_no_match:
  "\<forall>country\<in>set cs. count_matches country t = 0 \<Longrightarrow> countries_loop cs t st = st"
  by (induction cs arbitrary: st) (simp_all add: countries_step_def split: prod.splits)

lemma russian_no_token:
  "list_all (\<lambda>country. \<not> standalone_occurrence country ''russian'') COUNTRY_KEYWORDS"
  by (simp add: COUNTRY_KEYWORDS_def standalone_occurrence_def occurs_at_def)

text \<open>
  C7: when the lower-cased text contains \<^verbatim>\<open>'russian'\<close> and no token of the registry stands in
  it between non-word neighbours, the extraction returns no country and no mention,
  whatever the iteration order of the registry: a token that occurs only inside a larger
  word is not matched.
\<close>

theorem no_standalone_token_no_country:
  assumes "contains ''russian'' (lower s)"
      and "\<forall>country\<in>set COUNTRY_KEYWORDS. \<not> standalone_occurrence country (lower s)"
      and "set iteration = set COUNTRY_KEYWORDS"
  shows "extract_countries_with_counts iteration (Some s) = Inr ([], Map.empty)"
proof -
  have "count_matches country (lower s) = 0" if "country \<in> set COUNTRY_KEYWORDS" for country
  proof -
    from that have "is_word (hd country)" "is_word (last country)"
      using COUNTRY_KEYWORDS_edges by (simp_all add: list_all_iff)
    moreover from that assms(2) have "\<not> standalone_occurrence country (lower s)" by blast
    ultimately have "findall_count country None (lower s) = 0"
      by (rule findall_count_zero)
    with that show ?thesis by (simp add: count_matches_def lower_country)
  qed
  then have "\<forall>country\<in>set (sorted_countries iteration). count_matches country (lower s) = 0"
    by (simp add: sorted_countries_set assms(3))
  then show ?thesis
    by (simp add: extract_countries_with_counts_def countries_loop_no_match)
qed

theorem no_standalone_token_no_country_witness:
  "contains ''russian'' (lower ''russian'') \<and>
   list_all (\<lambda>country. \<not> standalone_occurrence country (lower ''russian'')) COUNTRY_KEYWORDS \<and>
   extract_countries_with_counts COUNTRY_KEYWORDS (Some ''russian'') = Inr ([], Map.empty)"
proof -
  have l: "lower ''russian'' = ''russian''"
    by (rule lower_id) (simp add: char_class_defs)
  have 1: "contains ''russian'' (lower ''russian'')"
    by (simp add: l)
  have 2: "list_all (\<lambda>country. \<not> standalone_occurrence country (lower ''russian''))
             COUNTRY_KEYWORDS"
    using russian_no_token by (simp only: l)
  then have 3: "\<forall>country\<in>set COUNTRY_KEYWORDS.
      \<not> standalone_occurrence country (lower ''russian'')"
    by (simp only: list_all_iff)
  from 1 2 no_standalone_token_no_country [OF 1 3 refl] show ?thesis by simp
qed

section \<open>The code against the specification's count and normalisation\<close>

lemma startswith_iff_take: "startswith s p = (take (length p) s = p)"
  by (induction s p rule: startswith.induct) auto

lemma last_char_append: "tok \<noteq> [] \<Longrightarrow> last_char (pre @ tok) = last_char tok"
  by (cases tok; cases pre) simp_all

lemma match_here_iff:
  assumes "tok \<noteq> []" and "is_word (hd tok)" and "is_word (last tok)"
  shows "match_here tok (last_char (take i s)) (drop i s) = occurs_at tok s i"
proof (cases "take (length tok) (drop i s) = tok")
  case True
  with assms(1) obtain c cs where rest: "drop i s = c # cs" by (cases "drop i s") auto
  with True assms(1) have "c = hd tok" by (cases tok) auto
  with assms(2) rest have w1: "word_at (first_char (drop i s))" by simp
  from assms(1,3) have w2: "word_at (last_char tok)" by (simp add: last_char_word)
  from True w1 w2 show ?thesis
    by (simp add: match_here_def occurs_at_def boundary_def startswith_iff_take add.commute)
next
  case False
  then show ?thesis
    by (simp add: match_here_def occurs_at_def startswith_iff_take)
qed

lemma findall_count_spec:
  "tok \<noteq> [] \<Longrightarrow> is_word (hd tok) \<Longrightarrow> is_word (last tok) \<Longrightarrow> i \<le> length s \<Longrightarrow>
   findall_count tok (last_char (take i s)) (drop i s) = spec_occurrences_from tok s i"
proof (induction tok s i rule: spec_occurrences_from.induct)
  case (1 tok s i)
  note simps = spec_occurrences_from.simps [of tok s]
  show ?case
  proof (cases "i = length s")
    case True
    with "1.prems"(1) have "\<not> occurs_at tok s i" by (auto simp: occurs_at_def)
    moreover have "spec_occurrences_from tok s (Suc (length s)) = 0"
      by (subst spec_occurrences_from.simps) (simp del: spec_occurrences_from.simps)
    ultimately have "spec_occurrences_from tok s i = 0"
      using True "1.prems"(1)
      by (subst spec_occurrences_from.simps) (simp del: spec_occurrences_from.simps)
    with True show ?thesis by (simp del: spec_occurrences_from.simps)
  next
    case False
    with "1.prems"(4) have lt: "i < length s" by simp
    then have rest: "drop i s = s ! i # drop (Suc i) s" by (simp add: Cons_nth_drop_Suc)
    have mh: "match_here tok (last_char (take i s)) (s ! i # drop (Suc i) s) = occurs_at tok s i"
      using match_here_iff [OF "1.prems"(1-3), of i s] by (simp only: rest)
    have guard: "\<not> (tok = [] \<or> length s < i)" using "1.prems"(1) lt by simp
    show ?thesis
    proof (cases "occurs_at tok s i")
      case True
      then have tk: "take (length tok) (drop i s) = tok" by (simp add: occurs_at_def)
      have le: "i + length tok \<le> length s"
        using arg_cong [OF tk, of length] lt by simp
      have "take (i + length tok) s = take i s @ tok"
        using tk by (simp add: take_add)
      then have lc: "last_char (take (i + length tok) s) = last_char tok"
        using "1.prems"(1) by (simp add: last_char_append)
      have d: "drop (length tok) (s ! i # drop (Suc i) s) = drop (i + length tok) s"
        using rest by (metis add.commute drop_drop)
      have "findall_count tok (last_char tok) (drop (i + length tok) s) =
            spec_occurrences_from tok s (i + length tok)"
        using "1.IH"(1) [OF guard True "1.prems"(1-3) le] by (simp only: lc)
      with True mh "1.prems"(1) guard show ?thesis
        by (simp add: rest d simps [of i] del: spec_occurrences_from.simps)
    next
      case False
      have "last_char (take (Suc i) s) = Some (s ! i)"
        using lt by (simp add: take_Suc_conv_app_nth last_char_snoc)
      then have "findall_count tok (Some (s ! i)) (drop (Suc i) s) =
            spec_occurrences_from tok s (Suc i)"
        using "1.IH"(2) [OF guard False "1.prems"(1-3)] lt by simp
      with False mh guard show ?thesis
        by (simp add: rest simps [of i] del: spec_occurrences_from.simps)
    qed
  qed
qed

lemma COUNTRY_KEYWORDS_nonempty: "list_all (\<lambda>country. country \<noteq> []) COUNTRY_KEYWORDS"
  by (simp add: COUNTRY_KEYWORDS_def)

lemma count_matches_spec:
  assumes "country \<in> set COUNTRY_KEYWORDS"
  shows "count_matches country s = spec_occurrences country s"
proof -
  from assms have "country \<noteq> []" "is_word (hd country)" "is_word (last country)"
    using COUNTRY_KEYWORDS_nonempty COUNTRY_KEYWORDS_edges by (simp_all add: list_all_iff)
  then have "findall_count country (last_char (take 0 s)) (drop 0 s) =
             spec_occurrences_from country s 0"
    by (rule findall_count_spec) simp
  with assms show ?thesis
    by (simp add: count_matches_def spec_occurrences_def lower_country
        del: spec_occurrences_from.simps)
qed

lemma map_via_zip: "map (\<lambda>x. h x (f x)) xs = map (\<lambda>p. h (fst p) (snd p)) (zip xs (map f xs))"
  by (induction xs) simp_all

lemma normalize_COUNTRY_KEYWORDS:
  "map normalize_country_name COUNTRY_KEYWORDS =
   [''United Kingdom'', ''Poland'', ''Germany'',
    ''France'', ''United Kingdom'', ''United Kingdom'', ''United Kingdom'',
    ''United Kingdom'', ''United Kingdom'', ''Estonia'',
    ''Latvia'', ''Lithuania'', ''Czech Republic'',
    ''Czech Republic'', ''Czech Republic'', ''Slovakia'',
    ''Romania'', ''Bulgaria'', ''Finland'', ''Sweden'',
    ''Norway'', ''Denmark'', ''Netherlands'', ''Belgium'',
    ''Spain'', ''Luxembourg'', ''Hungary'', ''Italy'',
    ''Greece'', ''Portugal'', ''Moldova'', ''Austria'', ''Switzerland'']"
proof -
  have t: "title ''united kingdom'' = ''United Kingdom''" "title ''austria'' = ''Austria''"
    "title ''switzerland'' = ''Switzerland''"
    using title_fallbacks by simp_all
  have "map normalize_country_name COUNTRY_KEYWORDS =
        map (\<lambda>p. case snd p of Some v \<Rightarrow> v | None \<Rightarrow> title (fst p))
          (zip COUNTRY_KEYWORDS
            (map (\<lambda>country. mapping_scan mapping (lower country)) COUNTRY_KEYWORDS))"
    unfolding normalize_country_name_def
    by (rule map_via_zip [of "\<lambda>x r. case r of Some v \<Rightarrow> v | None \<Rightarrow> title x"])
  also have "\<dots> = [''United Kingdom'', ''Poland'', ''Germany'',
    ''France'', ''United Kingdom'', ''United Kingdom'', ''United Kingdom'',
    ''United Kingdom'', ''United Kingdom'', ''Estonia'',
    ''Latvia'', ''Lithuania'', ''Czech Republic'',
    ''Czech Republic'', ''Czech Republic'', ''Slovakia'',
    ''Romania'', ''Bulgaria'', ''Finland'', ''Sweden'',
    ''Norway'', ''Denmark'', ''Netherlands'', ''Belgium'',
    ''Spain'', ''Luxembourg'', ''Hungary'', ''Italy'',
    ''Greece'', ''Portugal'', ''Moldova'', ''Austria'', ''Switzerland'']"
    unfolding scan_lower_COUNTRY_KEYWORDS scan_COUNTRY_KEYWORDS
    by (simp add: COUNTRY_KEYWORDS_def t)
  finally show ?thesis .
qed

lemma spec_normalize_COUNTRY_KEYWORDS:
  "map spec_normalize COUNTRY_KEYWORDS =
   [''Ukraine'', ''Poland'', ''Germany'',
    ''France'', ''United Kingdom'', ''United Kingdom'', ''United Kingdom'',
    ''United Kingdom'', ''United Kingdom'', ''Estonia'',
    ''Latvia'', ''Lithuania'', ''Czech Republic'',
    ''Czech Republic'', ''Czech Republic'', ''Slovakia'',
    ''Romania'', ''Bulgaria'', ''Finland'', ''Sweden'',
    ''Norway'', ''Denmark'', ''Netherlands'', ''Belgium'',
    ''Spain'', ''Luxembourg'', ''Hungary'', ''Italy'',
    ''Greece'', ''Portugal'', ''Moldova'', ''Austria'', ''Switzerland'']"
proof -
  have t: "title ''united kingdom'' = ''United Kingdom''" "title ''austria'' = ''Austria''"
    "title ''switzerland'' = ''Switzerland''"
    using title_fallbacks by simp_all
  have "map spec_normalize COUNTRY_KEYWORDS =
        map (\<lambda>p. case snd p of Some v \<Rightarrow> v
                  | None \<Rightarrow> (case find (\<lambda>item. contains (fst item) (fst p)) mapping of
                               Some item \<Rightarrow> snd item | None \<Rightarrow> title (fst p)))
          (zip COUNTRY_KEYWORDS (map (map_of mapping) COUNTRY_KEYWORDS))"
    unfolding spec_normalize_def
    by (rule map_via_zip [of "\<lambda>x r. case r of Some v \<Rightarrow> v
                  | None \<Rightarrow> (case find (\<lambda>item. contains (fst item) x) mapping of
                               Some item \<Rightarrow> snd item | None \<Rightarrow> title x)"])
  also have "\<dots> = [''Ukraine'', ''Poland'', ''Germany'',
    ''France'', ''United Kingdom'', ''United Kingdom'', ''United Kingdom'',
    ''United Kingdom'', ''United Kingdom'', ''Estonia'',
    ''Latvia'', ''Lithuania'', ''Czech Republic'',
    ''Czech Republic'', ''Czech Republic'', ''Slovakia'',
    ''Romania'', ''Bulgaria'', ''Finland'', ''Sweden'',
    ''Norway'', ''Denmark'', ''Netherlands'', ''Belgium'',
    ''Spain'', ''Luxembourg'', ''Hungary'', ''Italy'',
    ''Greece'', ''Portugal'', ''Moldova'', ''Austria'', ''Switzerland'']"
    unfolding exact_COUNTRY_KEYWORDS
    by (simp add: COUNTRY_KEYWORDS_def t mapping_eq)
  finally show ?thesis .
qed

lemma sum_list_filter_if:
  "sum_list (map f (filter P xs)) = sum_list (map (\<lambda>x. if P x then f x else (0::nat)) xs)"
  by (induction xs) simp_all

lemma list_all_via_zip:
  "list_all (\<lambda>x. R x (f x) (g x)) xs =
   list_all (\<lambda>p. R (fst p) (fst (snd p)) (snd (snd p))) (zip xs (zip (map f xs) (map g xs)))"
  by (induction xs) simp_all

lemma normalize_agrees:
  "list_all (\<lambda>country. country = ''ukraine'' \<or>
      normalize_country_name country = spec_normalize country) COUNTRY_KEYWORDS"
proof -
  have "list_all (\<lambda>country. country = ''ukraine'' \<or>
      normalize_country_name country = spec_normalize country) COUNTRY_KEYWORDS =
    list_all (\<lambda>p. fst p = ''ukraine'' \<or> fst (snd p) = snd (snd p))
      (zip COUNTRY_KEYWORDS
        (zip (map normalize_country_name COUNTRY_KEYWORDS) (map spec_normalize COUNTRY_KEYWORDS)))"
    by (rule list_all_via_zip [of "\<lambda>x a b. x = ''ukraine'' \<or> a = b"])
  also have "\<dots>"
    unfolding normalize_COUNTRY_KEYWORDS spec_normalize_COUNTRY_KEYWORDS
    by (simp add: COUNTRY_KEYWORDS_def)
  finally show ?thesis .
qed

lemma part_total_spec:
  assumes "spec_occurrences ''ukraine'' t = 0"
  shows "part_total COUNTRY_KEYWORDS t c = spec_mention_total t c"
proof -
  have "(if normalize_country_name x = c then count_matches x t else 0) =
        (if spec_normalize x = c then spec_occurrences x t else 0)"
    if "x \<in> set COUNTRY_KEYWORDS" for x
  proof (cases "x = ''ukraine''")
    case True
    with that assms show ?thesis by (simp add: count_matches_spec)
  next
    case False
    with that normalize_agrees have "normalize_country_name x = spec_normalize x"
      by (auto simp: list_all_iff)
    with that show ?thesis by (simp add: count_matches_spec)
  qed
  then have "map (\<lambda>x. if normalize_country_name x = c then count_matches x t else 0)
               COUNTRY_KEYWORDS =
             map (\<lambda>x. if spec_normalize x = c then spec_occurrences x t else 0)
               COUNTRY_KEYWORDS"
    by (intro map_cong) simp_all
  then show ?thesis
    by (simp only: part_total_def spec_mention_total_def sum_list_filter_if)
qed

lemma part_total_registry:
  assumes "distinct iteration" and "set iteration = set COUNTRY_KEYWORDS"
  shows "part_total (sorted_countries iteration) t c = part_total COUNTRY_KEYWORDS t c"
  by (rule part_total_perm)
     (simp_all add: sorted_countries_set sorted_countries_distinct assms
        distinct_COUNTRY_KEYWORDS)

lemma ukraine_lower: "lower ''ukraine'' = ''ukraine''"
  by (rule lower_id) (simp add: char_class_defs)

lemma spec_total_ukraine:
  "spec_mention_total ''ukraine'' ''Ukraine'' = 1"
  "spec_mention_total ''ukraine'' ''United Kingdom'' = 0"
proof -
  have f: "filter (\<lambda>token. spec_normalize token = c) COUNTRY_KEYWORDS =
        map fst (filter (\<lambda>p. snd p = c)
          (zip COUNTRY_KEYWORDS (map spec_normalize COUNTRY_KEYWORDS)))" for c
    by (rule filter_via_zip [of "\<lambda>n. n = c"])
  show "spec_mention_total ''ukraine'' ''Ukraine'' = 1"
    unfolding spec_mention_total_def f spec_normalize_COUNTRY_KEYWORDS
    by (simp add: COUNTRY_KEYWORDS_def spec_occurrences_def occurs_at_def char_class_defs)
  show "spec_mention_total ''ukraine'' ''United Kingdom'' = 0"
    unfolding spec_mention_total_def f spec_normalize_COUNTRY_KEYWORDS
    by (simp add: COUNTRY_KEYWORDS_def spec_occurrences_def occurs_at_def char_class_defs)
qed

lemma code_ukraine:
  "extract_countries_with_counts COUNTRY_KEYWORDS (Some ''ukraine'') =
     Inr ([''United Kingdom''], [''United Kingdom'' \<mapsto> 1])"
  by (simp add: extract_countries_with_counts_def ukraine_lower sorted_countries_def
      COUNTRY_KEYWORDS_def countries_step_def count_matches_def lower_id match_here_def
      boundary_def char_class_defs normalize_country_name_def mapping_eq Let_def)

text \<open>
  Where the token \<^verbatim>\<open>'ukraine'\<close> does not occur, the code does what the specification says,
  whatever the order in which Python iterates over the registry: the returned dict holds for
  each canonical name the specification's count (a name whose count is zero has no entry), a
  name is in the returned list exactly when its count is at least 1, and the list has no
  duplicates.
\<close>

lemma country_mentions_unless_ukraine:
  assumes "distinct iteration" and "set iteration = set COUNTRY_KEYWORDS"
      and "spec_occurrences ''ukraine'' (lower s) = 0"
  shows "\<exists>found_countries country_mentions.
     extract_countries_with_counts iteration (Some s) =
       Inr (found_countries, country_mentions) \<and>
     (\<forall>c. country_mentions c =
        (if spec_mention_total (lower s) c = 0 then None else Some (spec_mention_total (lower s) c))) \<and>
     (\<forall>c. (c \<in> set found_countries) = (1 \<le> spec_mention_total (lower s) c)) \<and>
     (\<forall>c\<in>set found_countries. \<exists>n. country_mentions c = Some n \<and> 1 \<le> n) \<and>
     distinct found_countries \<and>
     length found_countries = card {c. spec_mention_total (lower s) c \<noteq> 0}"
proof -
  obtain found m where
    st: "countries_loop (sorted_countries iteration) (lower s) ([], Map.empty) = (found, m)"
    by (cases "countries_loop (sorted_countries iteration) (lower s) ([], Map.empty)")
  have inv: "loop_inv (found, m)"
    using st by (rule countries_loop_result(1))
  have get: "mentions_get m c = spec_mention_total (lower s) c" for c
    using countries_loop_result(2) [OF st, of c] part_total_registry [OF assms(1,2)]
      part_total_spec [OF assms(3)]
    by simp
  have 1: "\<forall>c. m c =
      (if spec_mention_total (lower s) c = 0 then None else Some (spec_mention_total (lower s) c))"
    using inv_lookup(1) [OF inv] by (simp add: get)
  have 2: "\<forall>c. (c \<in> set found) = (1 \<le> spec_mention_total (lower s) c)"
    using inv_lookup(2) [OF inv] by (simp add: get)
  have 3: "distinct found" using inv by (simp add: loop_inv_def)
  have "set found = {c. spec_mention_total (lower s) c \<noteq> 0}"
  proof (rule set_eqI)
    fix c
    have "(c \<in> set found) = (1 \<le> spec_mention_total (lower s) c)"
      using 2 by (rule spec)
    then show "(c \<in> set found) = (c \<in> {c. spec_mention_total (lower s) c \<noteq> 0})"
      by (simp add: Suc_le_eq)
  qed
  then have 4: "length found = card {c. spec_mention_total (lower s) c \<noteq> 0}"
    using distinct_card [OF 3] by simp
  have 5: "\<forall>c\<in>set found. \<exists>n. m c = Some n \<and> 1 \<le> n"
  proof
    fix c assume "c \<in> set found"
    then have "1 \<le> spec_mention_total (lower s) c" using 2 by simp
    moreover have "m c =
      (if spec_mention_total (lower s) c = 0 then None else Some (spec_mention_total (lower s) c))"
      using 1 by (rule spec)
    ultimately show "\<exists>n. m c = Some n \<and> 1 \<le> n" by simp
  qed
  have 0: "extract_countries_with_counts iteration (Some s) = Inr (found, m)"
    by (simp add: extract_countries_with_counts_def st)
  show ?thesis
    apply (rule exI [of _ found], rule exI [of _ m])
    apply (intro conjI)
         apply (rule 0)
        apply (rule 1)
       apply (rule 2)
      apply (rule 5)
     apply (rule 3)
    apply (rule 4)
    done
qed

text \<open>
  C6 (the code departs from the claim): on the text \<^verbatim>\<open>'ukraine'\<close> the only token of the registry
  that occurs is \<^verbatim>\<open>'ukraine'\<close>, which the specification's rule normalises to \<^verbatim>\<open>'Ukraine'\<close>, so
  that the specification's count is 1 for \<^verbatim>\<open>'Ukraine'\<close> and 0 for \<^verbatim>\<open>'United Kingdom'\<close>. The
  code returns the list \<^verbatim>\<open>['United Kingdom']\<close> and the dict \<^verbatim>\<open>{'United Kingdom': 1}\<close>: the
  mention is counted under the name that \<^verbatim>\<open>_normalize_country_name\<close> gives to \<^verbatim>\<open>'ukraine'\<close>.
\<close>

theorem ukraine_counted_for_united_kingdom:
  "extract_countries_with_counts COUNTRY_KEYWORDS (Some ''ukraine'') =
     Inr ([''United Kingdom''], [''United Kingdom'' \<mapsto> 1]) \<and>
   spec_mention_total (lower ''ukraine'') ''Ukraine'' = 1 \<and>
   spec_mention_total (lower ''ukraine'') ''United Kingdom'' = 0"
  by (simp only: ukraine_lower spec_total_ukraine code_ukraine simp_thms)

section \<open>Empty and missing texts\<close>

lemma any_keyword_in_empty: "any_keyword_in kws (Some []) = Inr ([] \<in> set kws)"
  by (induction kws) (auto simp: lower_def split: bool.splits)

lemma any_keyword_in_str: "\<exists>b. any_keyword_in kws (Some s) = Inr b"
  by (induction kws) (auto split: bool.splits)

lemma industries_loop_str: "\<exists>r. industries_loop items (Some s) found = Inr r"
proof (induction items arbitrary: found)
  case Nil
  then show ?case by simp
next
  case (Cons item items)
  obtain industry kws where item: "item = (industry, kws)" by (cases item)
  obtain b where "any_keyword_in kws (Some s) = Inr b"
    using any_keyword_in_str by blast
  with Cons item show ?case by (cases b) simp_all
qed

lemma industries_loop_empty:
  "list_all (\<lambda>item. [] \<notin> set (snd item)) items \<Longrightarrow>
   industries_loop items (Some []) found = Inr found"
  by (induction items arbitrary: found) (auto simp: any_keyword_in_empty)

lemma countries_loop_empty: "countries_loop countries [] st = st"
  by (induction countries arbitrary: st) (simp_all add: countries_step_def count_matches_def)

lemma keyword_score_empty: "[] \<notin> set kws \<Longrightarrow> keyword_score kws [] = 0"
  by (induction kws) (auto simp: keyword_score_def)

text \<open>
  C5, the claim as stated fails: on \<^verbatim>\<open>None\<close> the three functions raise. The first keyword
  test of \<^verbatim>\<open>_extract_industries\<close> raises \<^verbatim>\<open>TypeError\<close>, and \<^verbatim>\<open>text.lower()\<close> in the other
  two raises \<^verbatim>\<open>AttributeError\<close>.
\<close>

theorem none_text_raises:
  "extract_industries None = Inl TypeError \<and>
   extract_countries_with_counts COUNTRY_KEYWORDS None = Inl AttributeError \<and>
   determine_attack_method None = Inl AttributeError"
  by (simp add: extract_industries_def INDUSTRY_KEYWORDS_def
      extract_countries_with_counts_def determine_attack_method_def)

text \<open>
  C5, amended: on the declared domain, a \<^verbatim>\<open>str\<close>, the three functions never raise, and on the
  empty text they return the empty result: no industry, no country and no mention, and the
  verdict \<^verbatim>\<open>'unknown'\<close>.
\<close>

theorem str_text_total:
  "extract_industries (Some []) = Inr [] \<and>
   extract_countries_with_counts iteration (Some []) = Inr ([], Map.empty) \<and>
   determine_attack_method (Some []) = Inr ''unknown'' \<and>
   (\<exists>r. extract_industries (Some s) = Inr r) \<and>
   (\<exists>r. extract_countries_with_counts iteration (Some s) = Inr r) \<and>
   (\<exists>r. determine_attack_method (Some s) = Inr r)"
proof -
  have "list_all (\<lambda>item. [] \<notin> set (snd item)) INDUSTRY_KEYWORDS"
    by (simp add: INDUSTRY_KEYWORDS_def)
  then have 1: "extract_industries (Some []) = Inr []"
    by (simp add: extract_industries_def industries_loop_empty)
  have 2: "extract_countries_with_counts iteration (Some []) = Inr ([], Map.empty)"
    by (simp add: extract_countries_with_counts_def lower_def countries_loop_empty)
  have "direct_score [] = 0" "proxy_score [] = 0"
    by (simp_all add: direct_score_def proxy_score_def keyword_score_empty
        SECURITY_SERVICES_direct_def SECURITY_SERVICES_proxy_def)
  then have 3: "determine_attack_method (Some []) = Inr ''unknown''"
    by (simp add: determine_attack_method_def lower_def)
  have 4: "\<exists>r. extract_industries (Some s) = Inr r"
    by (simp add: extract_industries_def industries_loop_str)
  have 5: "\<exists>r. extract_countries_with_counts iteration (Some s) = Inr r"
    by (simp add: extract_countries_with_counts_def)
  have 6: "\<exists>r. determine_attack_method (Some s) = Inr r"
    by (simp add: determine_attack_method_def)
  from 1 2 3 4 5 6 show ?thesis by blast
qed

section \<open>The attribution verdict\<close>

text \<open>
  C8: the verdict is \<^verbatim>\<open>'direct'\<close> exactly when the direct score is strictly greater than the
  proxy score, \<^verbatim>\<open>'proxy'\<close> exactly when the proxy score is strictly greater, and
  \<^verbatim>\<open>'unknown'\<close> exactly on a tie, the tie at zero included.
\<close>

theorem attack_method_decision:
  "(determine_attack_method (Some s) = Inr ''direct'') =
     (direct_score (lower s) > proxy_score (lower s)) \<and>
   (determine_attack_method (Some s) = Inr ''proxy'') =
     (proxy_score (lower s) > direct_score (lower s)) \<and>
   (determine_attack_method (Some s) = Inr ''unknown'') =
     (direct_score (lower s) = proxy_score (lower s))"
  by (auto simp: determine_attack_method_def)

text \<open>
  C10: the text \<^verbatim>\<open>'criminals'\<close> contains two keywords of the proxy lexicon, \<^verbatim>\<open>'criminals'\<close>
  and \<^verbatim>\<open>'criminal'\<close>, and none of the direct lexicon: the proxy score is 2 and the verdict
  is \<^verbatim>\<open>'proxy'\<close>.
\<close>

theorem criminals_scores_twice:
  "proxy_score (lower ''criminals'') = 2 \<and> direct_score (lower ''criminals'') = 0 \<and>
   determine_attack_method (Some ''criminals'') = Inr ''proxy''"
proof -
  have l: "lower ''criminals'' = ''criminals''"
    by (rule lower_id) (simp add: char_class_defs)
  have p: "proxy_score ''criminals'' = 2"
    by (simp add: proxy_score_def keyword_score_def SECURITY_SERVICES_proxy_def)
  have d: "direct_score ''criminals'' = 0"
    by (simp add: direct_score_def keyword_score_def SECURITY_SERVICES_direct_def)
  show ?thesis by (simp add: determine_attack_method_def l p d)
qed

section \<open>Date parsing\<close>

lemmas pattern_defs = patterns_def
  pattern_month_day_year_def pattern_day_month_year_def pattern_iso_def pattern_slashes_def
  pattern_dots_def pattern_month_year_def limit_def Let_def

lemmas formatter_defs =
  format_date_from_match_def format_month_year_def format_ymd_def format_eu_or_us_def
  try_eu_or_us_format_def months_def zfill_def int_of_def digit_value_def

lemmas strptime_defs = validate_date_def strptime_ymd_def days_in_month_def is_leap_def

lemmas date_defs = parse_date_def dateutil_absent_def strip_def pattern_defs formatter_defs
  strptime_defs char_class_defs

lemma try_patterns_validated: "try_patterns ps t = Some r \<Longrightarrow> validate_date r"
  by (induction ps t rule: try_patterns.induct) (auto split: option.splits if_splits)

lemma validate_date_window:
  "validate_date r \<Longrightarrow> \<exists>y m d. strptime_ymd r = Some (y, m, d) \<and> 2000 \<le> y \<and> y \<le> 2030"
  by (auto simp: validate_date_def split: option.splits if_splits)

lemma pattern_table_validated:
  "parse_date dateutil_absent t = Inr (Some r) \<Longrightarrow>
   \<exists>y m d. strptime_ymd r = Some (y, m, d) \<and> 2000 \<le> y \<and> y \<le> 2030"
  by (rule validate_date_window)
     (auto simp: parse_date_def dateutil_absent_def Let_def split: option.splits if_splits
        dest: try_patterns_validated)

lemmas relative_defs = parse_google_date_def relative_def pattern_ago_def literal_def
  days_ago_def ymd2ord_def ord2ymd_def days_before_month_def days_before_year_def
  DAYS_BEFORE_MONTH_def DAYS_IN_MONTH_def is_leap_def strftime_ymd_def year_digits_def
  digit_char_def int_of_def digit_value_def limit_def Let_def strip_def lower_def lower_char_def
  ascii_uppercase_def ascii_lowercase_def char_class_defs

text \<open>The example of the specification, and a phrase that leads before the year 2000.\<close>

lemma three_days_ago:
  "parse_google_date (2024, 6, 10) date_parser (Some ''3 days ago'') =
   Inr (Some ''2024-06-07'')"
  by (simp add: relative_defs)

lemma thirty_years_ago:
  "parse_google_date (2024, 6, 10) date_parser (Some ''30 years ago'') =
   Inr (Some ''1994-06-18'')"
  by (simp add: relative_defs)

text \<open>
  C2 (the code departs from the claim): \<^verbatim>\<open>dateutil\<close> parses \<^verbatim>\<open>'1999-06-15'\<close> as the 15th of June
  1999, and \<^verbatim>\<open>_parse_date\<close> returns that date at once, without \<^verbatim>\<open>_validate_date\<close>; on the
  10th of June 2024, \<^verbatim>\<open>_parse_google_date\<close> turns \<^verbatim>\<open>'30 years ago'\<close> into \<^verbatim>\<open>'1994-06-18'\<close>,
  again without validation. The validation rejects both strings, and the pattern table,
  which validates every candidate (\<open>pattern_table_validated\<close>), returns \<^verbatim>\<open>None\<close> for the
  first one.
\<close>

theorem year_outside_window_accepted:
  "parse_date (dateutil_parsing ''1999-06-15'' (1999, 6, 15)) (Some ''1999-06-15'') =
     Inr (Some ''1999-06-15'') \<and>
   parse_google_date (2024, 6, 10) dateutil_absent (Some ''30 years ago'') =
     Inr (Some ''1994-06-18'') \<and>
   validate_date ''1999-06-15'' = False \<and>
   validate_date ''1994-06-18'' = False \<and>
   parse_date dateutil_absent (Some ''1999-06-15'') = Inr None"
proof -
  have s: "strip ''1999-06-15'' = ''1999-06-15''"
    by (simp add: strip_def char_class_defs)
  have 1: "parse_date (dateutil_parsing ''1999-06-15'' (1999, 6, 15)) (Some ''1999-06-15'') =
     Inr (Some ''1999-06-15'')"
    by (simp add: parse_date_def s dateutil_parsing_def strftime_ymd_def year_digits_def
        digit_char_def)
  have 2: "validate_date ''1999-06-15'' = False"
    by (simp add: strptime_defs int_of_def digit_value_def char_class_defs)
  have 3: "validate_date ''1994-06-18'' = False"
    by (simp add: strptime_defs int_of_def digit_value_def char_class_defs)
  have 4: "parse_date dateutil_absent (Some ''1999-06-15'') = Inr None"
    by (simp add: date_defs)
  from 1 2 3 4 thirty_years_ago show ?thesis by simp
qed

text \<open>
  C4, the claim as stated fails: \<^verbatim>\<open>dateutil\<close> reads \<^verbatim>\<open>'20200115'\<close> as the 15th of January 2020,
  and no pattern of the table matches this text, so the result with the library is
  \<^verbatim>\<open>'2020-01-15'\<close> and the result without it is \<^verbatim>\<open>None\<close>.
\<close>

theorem fuzzy_parser_changes_result:
  "parse_date (dateutil_parsing ''20200115'' (2020, 1, 15)) (Some ''20200115'') =
     Inr (Some ''2020-01-15'') \<and>
   parse_date dateutil_absent (Some ''20200115'') = Inr None"
proof -
  have s: "strip ''20200115'' = ''20200115''"
    by (simp add: strip_def char_class_defs)
  have 1: "parse_date (dateutil_parsing ''20200115'' (2020, 1, 15)) (Some ''20200115'') =
     Inr (Some ''2020-01-15'')"
    by (simp add: parse_date_def s dateutil_parsing_def strftime_ymd_def year_digits_def
        digit_char_def)
  have 2: "parse_date dateutil_absent (Some ''20200115'') = Inr None"
    by (simp add: date_defs)
  from 1 2 show ?thesis by simp
qed

text \<open>
  An exception of the parser that the \<^verbatim>\<open>except\<close> clause does not catch leaves
  \<^verbatim>\<open>_parse_date\<close>: the pattern table is not tried.
\<close>

lemma uncaught_exception_propagates:
  "t \<noteq> [] \<Longrightarrow> date_parser (strip t) = Raised e \<Longrightarrow> parse_date date_parser (Some t) = Inl e"
  by (simp add: parse_date_def)

lemma slashes_0502:
  "parse_date dateutil_absent (Some ''05/02/2019'') = Inr (Some ''2019-05-02'')"
  by (simp add: date_defs)

text \<open>
  C4, amended: on every text on which the library is not available (the import raises
  \<^verbatim>\<open>ImportError\<close>) or its parser raises \<^verbatim>\<open>ValueError\<close> or \<^verbatim>\<open>TypeError\<close>, the result of
  \<^verbatim>\<open>_parse_date\<close> is the same as without the library: it is the result of the pattern table
  alone, that is, unset or a date in canonical form that has passed the validation, with a
  year from 2000 to 2030.
\<close>

theorem parser_failure_falls_back:
  assumes "date_parser (strip t) = Caught"
  shows "parse_date date_parser (Some t) = parse_date dateutil_absent (Some t) \<and>
         (parse_date date_parser (Some t) = Inr None \<or>
          (\<exists>r y m d. parse_date date_parser (Some t) = Inr (Some r) \<and>
             strptime_ymd r = Some (y, m, d) \<and> 2000 \<le> y \<and> y \<le> 2030))"
proof -
  have eq: "parse_date date_parser (Some t) = parse_date dateutil_absent (Some t)"
    using assms by (simp add: parse_date_def dateutil_absent_def)
  have "\<exists>res. parse_date dateutil_absent (Some t) = Inr res"
    by (simp add: parse_date_def dateutil_absent_def)
  then obtain res where res: "parse_date dateutil_absent (Some t) = Inr res" ..
  show ?thesis
  proof (cases res)
    case None
    with eq res show ?thesis by simp
  next
    case (Some r)
    with res have "parse_date dateutil_absent (Some t) = Inr (Some r)" by simp
    then have "\<exists>y m d. strptime_ymd r = Some (y, m, d) \<and> 2000 \<le> y \<and> y \<le> 2030"
      by (rule pattern_table_validated)
    with eq res Some show ?thesis by simp
  qed
qed

theorem parser_failure_falls_back_witness:
  "dateutil_parsing ''20200115'' (2020, 1, 15) (strip ''05/02/2019'') = Caught \<and>
   parse_date (dateutil_parsing ''20200115'' (2020, 1, 15)) (Some ''05/02/2019'') =
     parse_date dateutil_absent (Some ''05/02/2019'') \<and>
   parse_date (dateutil_parsing ''20200115'' (2020, 1, 15)) (Some ''05/02/2019'') =
     Inr (Some ''2019-05-02'')"
proof -
  have s: "strip ''05/02/2019'' = ''05/02/2019''"
    by (simp add: strip_def char_class_defs)
  have h: "dateutil_parsing ''20200115'' (2020, 1, 15) (strip ''05/02/2019'') = Caught"
    by (simp add: s dateutil_parsing_def)
  have "parse_date (dateutil_parsing ''20200115'' (2020, 1, 15)) (Some ''05/02/2019'') =
     parse_date dateutil_absent (Some ''05/02/2019'')"
    using parser_failure_falls_back
      [of "dateutil_parsing ''20200115'' (2020, 1, 15)" "''05/02/2019''", OF h]
    by (rule conjunct1)
  with h show ?thesis by (simp add: slashes_0502)
qed

text \<open>
  C3, the claim as stated fails: for \<^verbatim>\<open>'05/02/2019'\<close> the code puts the first number in the
  month position and returns \<^verbatim>\<open>'2019-05-02'\<close>, not \<^verbatim>\<open>'2019-02-05'\<close>.
\<close>

theorem ambiguous_date_is_month_first:
  "try_eu_or_us_format ''05'' ''02'' ''2019'' = ''2019-05-02'' \<and>
   parse_date dateutil_absent (Some ''05/02/2019'') = Inr (Some ''2019-05-02'') \<and>
   parse_date dateutil_absent (Some ''05/02/2019'') \<noteq> Inr (Some ''2019-02-05'')"
proof -
  have "try_eu_or_us_format ''05'' ''02'' ''2019'' = ''2019-05-02''"
    by (simp add: formatter_defs char_class_defs)
  then show ?thesis by (simp add: slashes_0502)
qed

subsection \<open>The pattern table on \<^verbatim>\<open>a/b/YYYY\<close>\<close>

lemma give_back_None:
  "(\<And>taken r. set r \<subseteq> set rt \<union> set rest \<Longrightarrow> k taken r = None) \<Longrightarrow>
   give_back k l rt rest = None"
proof (induction rt arbitrary: rest)
  case Nil
  then show ?case by simp
next
  case (Cons c rt)
  have "k (rev (c # rt)) rest = None" by (rule Cons.prems) auto
  moreover have "give_back k l rt (c # rest) = None"
    by (rule Cons.IH, rule Cons.prems) auto
  ultimately show ?case by simp
qed

lemma set_limit: "set (limit h s) \<subseteq> set s"
  by (auto simp: limit_def split: option.splits dest: in_set_takeD)

lemma match_pieces_needs:
  assumes "p \<in> set ps" and "0 < lo p"
  shows "\<forall>c\<in>set s. \<not> in_class (cls p) c \<Longrightarrow> match_pieces ps s = None"
  using assms(1)
proof (induction ps arbitrary: s)
  case Nil
  then show ?case by simp
next
  case (Cons q ps)
  let ?run = "takeWhile (in_class (cls q)) (limit (hi q) s)"
  have sub: "set (rev ?run) \<union> set (drop (length ?run) s) \<subseteq> set s"
    using set_limit [of "hi q" s] by (auto dest: set_takeWhileD in_set_dropD)
  show ?case
  proof (cases "q = p")
    case True
    have "takeWhile (in_class (cls p)) (limit (hi p) s) = []"
      using Cons.prems(1) set_limit [of "hi p" s]
      by (auto simp: takeWhile_eq_Nil_iff dest!: hd_in_set)
    with True assms(2) show ?thesis by simp
  next
    case False
    with Cons.prems(2) have mem: "p \<in> set ps" by simp
    have "match_pieces ps r = None" if "set r \<subseteq> set (rev ?run) \<union> set (drop (length ?run) s)" for r
      using that sub Cons.prems(1) by (intro Cons.IH [OF _ mem]) blast
    then have "give_back
        (\<lambda>taken rest. map_option (\<lambda>groups. if capturing q then taken # groups else groups)
                        (match_pieces ps rest))
        (lo q) (rev ?run) (drop (length ?run) s) = None"
      by (intro give_back_None) simp
    then show ?thesis
      by (simp add: Let_def)
  qed
qed

lemma re_search_needs:
  assumes "p \<in> set ps" and "0 < lo p"
  shows "\<forall>c\<in>set s. \<not> in_class (cls p) c \<Longrightarrow> re_search ps s = None"
  by (induction s) (simp_all add: match_pieces_needs [OF assms])

lemma digit_not_space: "is_digit c \<Longrightarrow> \<not> is_space c"
  by (auto simp: char_class_defs)

lemma digit_not_slash: "is_digit c \<Longrightarrow> c \<noteq> CHR ''/''"
  by (auto simp: char_class_defs)

lemma digit_not_dash: "is_digit c \<Longrightarrow> c \<noteq> CHR ''-''"
  by (auto simp: char_class_defs)

lemma slash_facts: "\<not> is_digit (CHR ''/'')" "\<not> is_space (CHR ''/'')" "\<not> is_word (CHR ''/'')"
  by (simp_all add: char_class_defs)

lemma one_or_two:
  assumes "list_all is_digit a" and "length a = 1 \<or> length a = 2"
  obtains a1 where "a = [a1]" "is_digit a1"
        | a1 a2 where "a = [a1, a2]" "is_digit a1" "is_digit a2"
proof -
  from assms(2) consider "length a = 1" | "length a = 2" by blast
  then show ?thesis
  proof cases
    case 1
    then obtain a1 where "a = [a1]" by (cases a) auto
    with assms(1) that(1) show ?thesis by simp
  next
    case 2
    then obtain a1 a2 where "a = [a1, a2]"
      by (cases a; cases "tl a") auto
    with assms(1) that(2) show ?thesis by simp
  qed
qed

lemma four_digits:
  assumes "list_all is_digit y" and "length y = 4"
  obtains y1 y2 y3 y4 where "y = [y1, y2, y3, y4]" "is_digit y1" "is_digit y2" "is_digit y3" "is_digit y4"
proof -
  from assms(2) obtain y1 y2 y3 y4 where "y = [y1, y2, y3, y4]"
    by (auto simp: length_Suc_conv numeral_eq_Suc)
  with assms(1) that show ?thesis by simp
qed

lemmas sym_eval = limit_def Let_def digit_not_slash digit_not_dash slash_facts

lemma iso_no_match:
  assumes "list_all is_digit a" "length a = 1 \<or> length a = 2"
      and "list_all is_digit b" "length b = 1 \<or> length b = 2"
      and "list_all is_digit y" "length y = 4"
  shows "re_search pattern_iso (a @ ''/'' @ b @ ''/'' @ y) = None"
proof -
  from assms(5,6) obtain y1 y2 y3 y4 where
    y: "y = [y1, y2, y3, y4]" "is_digit y1" "is_digit y2" "is_digit y3" "is_digit y4"
    by (rule four_digits)
  from assms(1,2) show ?thesis
  proof (cases rule: one_or_two)
    case a: (1 a1)
    from assms(3,4) show ?thesis
    proof (cases rule: one_or_two)
      case b: (1 b1)
      with a y show ?thesis by (simp add: pattern_iso_def sym_eval)
    next
      case b: (2 b1 b2)
      with a y show ?thesis by (simp add: pattern_iso_def sym_eval)
    qed
  next
    case a: (2 a1 a2)
    from assms(3,4) show ?thesis
    proof (cases rule: one_or_two)
      case b: (1 b1)
      with a y show ?thesis by (simp add: pattern_iso_def sym_eval)
    next
      case b: (2 b1 b2)
      with a y show ?thesis by (simp add: pattern_iso_def sym_eval)
    qed
  qed
qed

lemma slashes_match:
  assumes "list_all is_digit a" "length a = 1 \<or> length a = 2"
      and "list_all is_digit b" "length b = 1 \<or> length b = 2"
      and "list_all is_digit y" "length y = 4"
  shows "re_search pattern_slashes (a @ ''/'' @ b @ ''/'' @ y) = Some [a, b, y]"
proof -
  from assms(5,6) obtain y1 y2 y3 y4 where
    y: "y = [y1, y2, y3, y4]" "is_digit y1" "is_digit y2" "is_digit y3" "is_digit y4"
    by (rule four_digits)
  from assms(1,2) show ?thesis
  proof (cases rule: one_or_two)
    case a: (1 a1)
    from assms(3,4) show ?thesis
    proof (cases rule: one_or_two)
      case b: (1 b1)
      with a y show ?thesis by (simp add: pattern_slashes_def sym_eval)
    next
      case b: (2 b1 b2)
      with a y show ?thesis by (simp add: pattern_slashes_def sym_eval)
    qed
  next
    case a: (2 a1 a2)
    from assms(3,4) show ?thesis
    proof (cases rule: one_or_two)
      case b: (1 b1)
      with a y show ?thesis by (simp add: pattern_slashes_def sym_eval)
    next
      case b: (2 b1 b2)
      with a y show ?thesis by (simp add: pattern_slashes_def sym_eval)
    qed
  qed
qed

lemma of_char_inj_nat: "(of_char c :: nat) = of_char d \<Longrightarrow> c = d"
  by (simp only: of_char_eq_iff)

lemma digit_cases: "is_digit c \<Longrightarrow> c \<in> set ''0123456789''"
proof -
  assume "is_digit c"
  then have "48 \<le> (of_char c :: nat)" "(of_char c :: nat) \<le> 57"
    by (simp_all add: is_digit_def py_ord_def)
  then have "(of_char c :: nat) \<in> {48, 49, 50, 51, 52, 53, 54, 55, 56, 57}"
    by (simp only: insert_iff empty_iff) arith
  then have "(of_char c :: nat) \<in> of_char ` set ''0123456789''"
    by simp
  then obtain d where "d \<in> set ''0123456789''" "(of_char c :: nat) = of_char d"
    by blast
  then show ?thesis using of_char_inj_nat by blast
qed

lemma digit_value_tests:
  assumes "is_digit c"
  shows "(c = CHR ''0'') = (digit_value c = 0)"
    and "(c = CHR ''1'') = (digit_value c = 1)"
    and "(c = CHR ''3'') = (digit_value c = 3)"
    and "(c \<in> set ''123456789'') = (1 \<le> digit_value c)"
    and "(c \<in> set ''012'') = (digit_value c \<le> 2)"
    and "(c \<in> set ''01'') = (digit_value c \<le> 1)"
    and "(c \<in> set ''12'') = (1 \<le> digit_value c \<and> digit_value c \<le> 2)"
    and "digit_value c \<le> 9"
  using digit_cases [OF assms] by (auto simp: digit_value_def py_ord_def)

lemma int_of_one: "int_of [a1] = digit_value a1"
  by (simp add: int_of_def)

lemma int_of_two: "int_of [a1, a2] = 10 * digit_value a1 + digit_value a2"
  by (simp add: int_of_def)

lemma zfill_one: "zfill 2 [a1] = [CHR ''0'', a1]"
  by (simp add: zfill_def numeral_2_eq_2)

lemma zfill_two: "zfill 2 [a1, a2] = [a1, a2]"
  by (simp add: zfill_def)

lemma zero_is_digit: "is_digit (CHR ''0'')" "digit_value (CHR ''0'') = 0"
  by (simp_all add: char_class_defs digit_value_def)

lemma zfill_digits:
  assumes "list_all is_digit a" and "length a = 1 \<or> length a = 2"
  obtains z1 z2 where "zfill 2 a = [z1, z2]" "is_digit z1" "is_digit z2"
    "int_of a = 10 * digit_value z1 + digit_value z2"
  using assms
  by (cases rule: one_or_two)
     (auto simp: zfill_one zfill_two int_of_one int_of_two zero_is_digit)

lemma zfill_value_cases:
  assumes "list_all is_digit a" and "length a = 1 \<or> length a = 2"
      and "1 \<le> int_of a" and "int_of a \<le> 12"
  obtains z2 where "zfill 2 a = [CHR ''1'', z2]" "z2 \<in> set ''012''"
      "int_of a = 10 + digit_value z2"
    | z2 where "zfill 2 a = [CHR ''0'', z2]" "z2 \<in> set ''123456789''"
      "int_of a = digit_value z2"
proof -
  from assms(1,2) obtain z1 z2 where z: "zfill 2 a = [z1, z2]" "is_digit z1" "is_digit z2"
    "int_of a = 10 * digit_value z1 + digit_value z2"
    by (rule zfill_digits)
  from z(2,3) have "digit_value z1 \<le> 9" "digit_value z2 \<le> 9"
    by (simp_all only: digit_value_tests(8))
  with assms(3,4) z(4) consider
    "digit_value z1 = 1" "digit_value z2 \<le> 2" | "digit_value z1 = 0" "1 \<le> digit_value z2"
    by arith
  then show ?thesis
  proof cases
    case 1
    from 1(1) z(2) have "z1 = CHR ''1''" by (simp only: digit_value_tests(2))
    moreover from 1(2) z(3) have "z2 \<in> set ''012''" by (simp only: digit_value_tests(5))
    moreover from 1(1) z(4) have "int_of a = 10 + digit_value z2" by simp
    ultimately show ?thesis using z(1) that(1) by blast
  next
    case 2
    from 2(1) z(2) have "z1 = CHR ''0''" by (simp only: digit_value_tests(1))
    moreover from 2(2) z(3) have "z2 \<in> set ''123456789''" by (simp only: digit_value_tests(4))
    moreover from 2(1) z(4) have "int_of a = digit_value z2" by simp
    ultimately show ?thesis using z(1) that(2) by blast
  qed
qed

lemma strptime_month_zfill:
  assumes "list_all is_digit a" and "length a = 1 \<or> length a = 2"
      and "1 \<le> int_of a" and "int_of a \<le> 12"
  shows "strptime_month (zfill 2 a @ rest) = Some (int_of a, rest)"
  using assms
proof (cases rule: zfill_value_cases)
  case (1 z2)
  then show ?thesis by simp
next
  case (2 z2)
  then show ?thesis by simp
qed

lemma strptime_day_zfill:
  assumes "list_all is_digit b" and "length b = 1 \<or> length b = 2"
      and "1 \<le> int_of b" and "int_of b \<le> 12"
  shows "strptime_day (zfill 2 b) = Some (int_of b, [])"
  using assms
proof (cases rule: zfill_value_cases)
  case (1 z2)
  then have "is_digit z2" by (auto simp: char_class_defs)
  with 1 show ?thesis by (simp add: digit_value_def py_ord_def)
next
  case (2 z2)
  then show ?thesis by simp
qed

lemma days_in_month_ge: "28 \<le> days_in_month y m"
  by (simp add: days_in_month_def)

lemma validate_month_first:
  assumes "list_all is_digit a" and "length a = 1 \<or> length a = 2"
      and "1 \<le> int_of a" and "int_of a \<le> 12"
      and "list_all is_digit b" and "length b = 1 \<or> length b = 2"
      and "1 \<le> int_of b" and "int_of b \<le> 12"
      and "list_all is_digit y" and "length y = 4"
      and "2000 \<le> int_of y" and "int_of y \<le> 2030"
  shows "validate_date (y @ ''-'' @ zfill 2 a @ ''-'' @ zfill 2 b)"
proof -
  from assms(9,10) obtain y1 y2 y3 y4 where
    y: "y = [y1, y2, y3, y4]" "is_digit y1" "is_digit y2" "is_digit y3" "is_digit y4"
    by (rule four_digits)
  have m: "strptime_month (zfill 2 a @ CHR ''-'' # zfill 2 b) =
           Some (int_of a, CHR ''-'' # zfill 2 b)"
    using assms(1-4) by (rule strptime_month_zfill)
  have d: "strptime_day (zfill 2 b) = Some (int_of b, [])"
    using assms(5-8) by (rule strptime_day_zfill)
  have le: "int_of b \<le> days_in_month (int_of y) (int_of a)"
    using assms(8) days_in_month_ge [of "int_of y" "int_of a"] by simp
  have "strptime_ymd (y @ ''-'' @ zfill 2 a @ ''-'' @ zfill 2 b) =
        Some (int_of y, int_of a, int_of b)"
    using assms(11) le by (simp add: strptime_ymd_def y m d)
  with assms(11,12) show ?thesis by (simp add: validate_date_def)
qed

lemma strip_id: "s \<noteq> [] \<Longrightarrow> \<not> is_space (hd s) \<Longrightarrow> \<not> is_space (last s) \<Longrightarrow> strip s = s"
proof -
  assume a: "s \<noteq> []" "\<not> is_space (hd s)" "\<not> is_space (last s)"
  then have 1: "dropWhile is_space s = s" by (cases s) simp_all
  from a have "rev s \<noteq> []" "\<not> is_space (hd (rev s))" by (simp_all add: hd_rev)
  then have "dropWhile is_space (rev s) = rev s" by (cases "rev s") simp_all
  with 1 show ?thesis by (simp add: strip_def)
qed

lemma try_eu_or_us_ambiguous:
  "int_of a \<le> 12 \<Longrightarrow> int_of b \<le> 12 \<Longrightarrow>
   try_eu_or_us_format a b y = y @ ''-'' @ zfill 2 a @ ''-'' @ zfill 2 b"
  by (simp add: try_eu_or_us_format_def)

text \<open>
  C3, amended: let \<^verbatim>\<open>a\<close> and \<^verbatim>\<open>b\<close> be numbers from 1 to 12, written with one or two digits,
  and \<^verbatim>\<open>YYYY\<close> a year from 2000 to 2030. When the result for the text \<^verbatim>\<open>a/b/YYYY\<close> comes from
  the pattern table (the library is absent, or its parser raises \<^verbatim>\<open>ValueError\<close> or
  \<^verbatim>\<open>TypeError\<close> on it), it is \<^verbatim>\<open>YYYY-aa-bb\<close>: the first
  number is taken as the month and the second as the day, the order of the United States,
  as the comment of the branch says.
\<close>

theorem ambiguous_slashes_month_first:
  assumes "list_all is_digit a" and "length a = 1 \<or> length a = 2"
      and "1 \<le> int_of a" and "int_of a \<le> 12"
      and "list_all is_digit b" and "length b = 1 \<or> length b = 2"
      and "1 \<le> int_of b" and "int_of b \<le> 12"
      and "list_all is_digit y" and "length y = 4"
      and "2000 \<le> int_of y" and "int_of y \<le> 2030"
      and "date_parser (a @ ''/'' @ b @ ''/'' @ y) = Caught"
  shows "parse_date date_parser (Some (a @ ''/'' @ b @ ''/'' @ y)) =
         Inr (Some (y @ ''-'' @ zfill 2 a @ ''-'' @ zfill 2 b))"
proof -
  let ?s = "a @ ''/'' @ b @ ''/'' @ y"
  let ?r = "y @ ''-'' @ zfill 2 a @ ''-'' @ zfill 2 b"
  have "\<forall>c\<in>set a \<union> set b \<union> set y. \<not> is_space c"
    using assms(1,5,9) by (auto simp: list_all_iff dest: digit_not_space)
  then have nosp: "\<forall>c\<in>set ?s. \<not> in_class (cls (Piece False Space 1 None)) c"
    by (simp add: slash_facts ball_Un)
  have a_ne: "a \<noteq> []" and y_ne: "y \<noteq> []" using assms(2,10) by auto
  have "hd ?s = hd a" "last ?s = last y" using a_ne y_ne by simp_all
  moreover have "is_digit (hd a)" "is_digit (last y)"
    using a_ne y_ne assms(1,9) by (simp_all add: list_all_iff)
  ultimately have s: "strip ?s = ?s"
    using a_ne by (intro strip_id) (simp_all add: digit_not_space)
  have 1: "re_search pattern_month_day_year ?s = None"
    by (rule re_search_needs [OF _ _ nosp]) (simp_all add: pattern_month_day_year_def)
  have 2: "re_search pattern_day_month_year ?s = None"
    by (rule re_search_needs [OF _ _ nosp]) (simp_all add: pattern_day_month_year_def)
  have 3: "re_search pattern_iso ?s = None"
    using assms(1,2,5,6,9,10) by (rule iso_no_match)
  have 4: "re_search pattern_slashes ?s = Some [a, b, y]"
    using assms(1,2,5,6,9,10) by (rule slashes_match)
  have 5: "format_eu_or_us [a, b, y] = Some ?r"
    using assms(4,8) by (simp add: format_eu_or_us_def try_eu_or_us_ambiguous)
  have 6: "validate_date ?r"
    using assms(1-12) by (rule validate_month_first)
  have 7: "?r \<noteq> []" using y_ne by simp
  have "try_patterns patterns ?s = Some ?r"
    using 1 2 3 4 5 6 7 by (simp add: patterns_def)
  then show ?thesis
    using a_ne assms(13) s by (simp add: parse_date_def)
qed

theorem ambiguous_slashes_month_first_witness:
  "list_all is_digit ''05'' \<and> (length ''05'' = 1 \<or> length ''05'' = 2) \<and>
   1 \<le> int_of ''05'' \<and> int_of ''05'' \<le> 12 \<and>
   list_all is_digit ''02'' \<and> (length ''02'' = 1 \<or> length ''02'' = 2) \<and>
   1 \<le> int_of ''02'' \<and> int_of ''02'' \<le> 12 \<and>
   list_all is_digit ''2019'' \<and> length ''2019'' = 4 \<and>
   2000 \<le> int_of ''2019'' \<and> int_of ''2019'' \<le> 2030 \<and>
   dateutil_absent (''05'' @ ''/'' @ ''02'' @ ''/'' @ ''2019'') = Caught \<and>
   parse_date dateutil_absent (Some (''05'' @ ''/'' @ ''02'' @ ''/'' @ ''2019'')) =
     Inr (Some (''2019'' @ ''-'' @ zfill 2 ''05'' @ ''-'' @ zfill 2 ''02''))"
proof -
  have a: "list_all is_digit ''05''" "length ''05'' = 1 \<or> length ''05'' = 2"
    "1 \<le> int_of ''05''" "int_of ''05'' \<le> 12"
    by (simp_all add: int_of_def digit_value_def char_class_defs)
  have b: "list_all is_digit ''02''" "length ''02'' = 1 \<or> length ''02'' = 2"
    "1 \<le> int_of ''02''" "int_of ''02'' \<le> 12"
    by (simp_all add: int_of_def digit_value_def char_class_defs)
  have y: "list_all is_digit ''2019''" "length ''2019'' = 4"
    "2000 \<le> int_of ''2019''" "int_of ''2019'' \<le> 2030"
    by (simp_all add: int_of_def digit_value_def char_class_defs)
  have p: "dateutil_absent (''05'' @ ''/'' @ ''02'' @ ''/'' @ ''2019'') = Caught"
    by (simp add: dateutil_absent_def)
  have "parse_date dateutil_absent (Some (''05'' @ ''/'' @ ''02'' @ ''/'' @ ''2019'')) =
     Inr (Some (''2019'' @ ''-'' @ zfill 2 ''05'' @ ''-'' @ zfill 2 ''02''))"
    using a b y p by (rule ambiguous_slashes_month_first)
  with a b y p show ?thesis by (intro conjI)
qed

end
